theory Spec2Isabelle
  imports Main "HOL-Library.Word"
begin

section \<open>Solidity values\<close>

text \<open>
  Addresses and 32-byte hashes are words. A \<open>uint256\<close> is a natural number below
  \<open>2 ^ 256\<close>; the contracts are compiled with Solidity 0.8, where \<open>+\<close>, \<open>-\<close> and
  \<open>*\<close> revert (panic) when the result leaves that range and division by zero panics.
  These checked operations are written out, so every revert of the source is a branch.
\<close>

type_synonym address = "160 word"
type_synonym bytes32 = "256 word"
type_synonym uint256 = nat

datatype error =
    ExpiredDeadline        \<comment> \<open>"RouterDefense: expired deadline"\<close>
  | InvalidAmount          \<comment> \<open>"RouterDefense: invalid amount"\<close>
  | IncorrectETHAmount     \<comment> \<open>"RouterDefense: incorrect ETH amount"\<close>
  | InsufficientOutput     \<comment> \<open>"RouterDefense: insufficient output"\<close>
  | SlippageExceeded       \<comment> \<open>"RouterDefense: slippage exceeded"\<close>
  | InvalidCommitment      \<comment> \<open>"RouterDefense: invalid commitment"\<close>
  | CommitmentUsed         \<comment> \<open>"RouterDefense: commitment used"\<close>
  | DeadlineTooSoon        \<comment> \<open>"RouterDefense: deadline too soon"\<close>
  | DeadlineTooFar         \<comment> \<open>"RouterDefense: deadline too far"\<close>
  | InvalidReveal          \<comment> \<open>"RouterDefense: invalid reveal"\<close>
  | AlreadyRevealed        \<comment> \<open>"RouterDefense: already revealed"\<close>
  | AlreadyExecuted        \<comment> \<open>"RouterDefense: already executed"\<close>
  | CommitmentExpired      \<comment> \<open>"RouterDefense: commitment expired"\<close>
  | RevealTooEarly         \<comment> \<open>"RouterDefense: reveal too early"\<close>
  | NoRevealedOrders       \<comment> \<open>"RouterDefense: no revealed orders"\<close>
  | NoRoutesAvailable      \<comment> \<open>"RouterDefense: no routes available"\<close>
  | NotOwner               \<comment> \<open>the \<open>onlyOwner\<close> modifier\<close>
  | TransferFailed         \<comment> \<open>a token transfer or approval that reverts\<close>
  | VenueExecutionError    \<comment> \<open>the swap router reverts\<close>
  | Panic                  \<comment> \<open>arithmetic overflow, underflow or division by zero\<close>

definition MAX_UINT256 :: nat where
  "MAX_UINT256 = 2 ^ 256 - 1"

definition checked_add :: "uint256 \<Rightarrow> uint256 \<Rightarrow> error + uint256" where
  "checked_add a b = (if a + b \<le> MAX_UINT256 then Inr (a + b) else Inl Panic)"

definition checked_sub :: "uint256 \<Rightarrow> uint256 \<Rightarrow> error + uint256" where
  "checked_sub a b = (if b \<le> a then Inr (a - b) else Inl Panic)"

definition checked_mul :: "uint256 \<Rightarrow> uint256 \<Rightarrow> error + uint256" where
  "checked_mul a b = (if a * b \<le> MAX_UINT256 then Inr (a * b) else Inl Panic)"

definition checked_div :: "uint256 \<Rightarrow> uint256 \<Rightarrow> error + uint256" where
  "checked_div a b = (if b = 0 then Inl Panic else Inr (a div b))"

text \<open>Sequencing of fallible steps: the first error aborts the rest.\<close>

definition bindE :: "error + 'a \<Rightarrow> ('a \<Rightarrow> error + 'b) \<Rightarrow> error + 'b" where
  "bindE m f = (case m of Inl e \<Rightarrow> Inl e | Inr x \<Rightarrow> f x)"

section \<open>Data model (IRouterDefense, RouteOptimizer)\<close>

text \<open>The argument of the swap router's \<open>exactInputSingle\<close> (Uniswap V3 periphery).\<close>

record ExactInputSingleParams =
  tokenIn :: address
  tokenOut :: address
  fee :: uint256
  recipient :: address
  deadline :: uint256
  amountIn :: uint256
  amountOutMinimum :: uint256
  sqrtPriceLimitX96 :: uint256

record SwapParams =
  tokenIn :: address
  tokenOut :: address
  amountIn :: uint256
  amountOutMin :: uint256
  recipient :: address
  deadline :: uint256

record Route =
  pool :: address
  tokenIn :: address
  tokenOut :: address
  percentage :: uint256

record CommitRevealOrder =
  commitment :: bytes32
  deadline :: uint256
  revealed :: bool
  executed :: bool

record PoolInfo =
  pool :: address
  token0 :: address
  token1 :: address
  liquidity :: uint256
  fee :: uint256

section \<open>RouteOptimizer\<close>

definition MAX_ROUTES :: nat where
  "MAX_ROUTES = 3"

definition PERCENTAGE_BASE :: nat where
  "PERCENTAGE_BASE = 10000"

definition isValidPool :: "PoolInfo \<Rightarrow> address \<Rightarrow> address \<Rightarrow> bool" where
  "isValidPool p tIn tOut \<longleftrightarrow>
     (token0 p = tIn \<and> token1 p = tOut) \<or> (token0 p = tOut \<and> token1 p = tIn)"

text \<open>\<open>_calculatePoolCapacity\<close>: \<open>(pool.liquidity * 3000) / 10000\<close>; the second argument is unused.\<close>

definition calculatePoolCapacity :: "PoolInfo \<Rightarrow> uint256 \<Rightarrow> error + uint256" where
  "calculatePoolCapacity p amount =
     bindE (checked_mul (liquidity p) 3000) (\<lambda>x. checked_div x 10000)"

text \<open>\<open>_calculateExpectedOutput\<close>: the fee is taken as a fraction of \<open>1000000\<close>.\<close>

definition calculateExpectedOutput ::
  "PoolInfo \<Rightarrow> address \<Rightarrow> address \<Rightarrow> uint256 \<Rightarrow> error + uint256" where
  "calculateExpectedOutput p tIn tOut amount =
     bindE (checked_mul amount (fee p)) (\<lambda>x.
     bindE (checked_div x 1000000) (\<lambda>feeAmount.
     bindE (checked_sub amount feeAmount) (\<lambda>amountInAfterFee.
     bindE (checked_mul amountInAfterFee 997) (\<lambda>y.
     checked_div y 1000))))"

text \<open>
  The loop of \<open>optimizeRoute\<close>, over the pools still to visit. \<open>routes\<close> is the prefix of
  the preallocated array filled so far (\<open>routeCount\<close> is its length),
  \<open>expectedAmountOut\<close> and \<open>remainingAmount\<close> are the loop variables. The source stores
  only the percentage of a leg; \<open>legs\<close> keeps the \<open>routeAmount\<close> of every stored route
  beside it, so that statements about leg amounts can be made.
\<close>

fun optimizeRoute_loop ::
  "address \<Rightarrow> address \<Rightarrow> uint256 \<Rightarrow> PoolInfo list \<Rightarrow> Route list \<Rightarrow> uint256 list \<Rightarrow>
     uint256 \<Rightarrow> uint256 \<Rightarrow> error + (Route list \<times> uint256 list \<times> uint256 \<times> uint256)" where
  "optimizeRoute_loop tIn tOut amount [] routes legs expectedAmountOut remainingAmount =
     Inr (routes, legs, expectedAmountOut, remainingAmount)"
| "optimizeRoute_loop tIn tOut amount (p # ps) routes legs expectedAmountOut remainingAmount =
     (if \<not> (length routes < MAX_ROUTES \<and> remainingAmount > 0)
        then Inr (routes, legs, expectedAmountOut, remainingAmount)
      else if \<not> isValidPool p tIn tOut
        then optimizeRoute_loop tIn tOut amount ps routes legs expectedAmountOut remainingAmount
      else
        bindE (calculatePoolCapacity p amount) (\<lambda>poolCapacity.
        let routeAmount =
              (if remainingAmount > poolCapacity then poolCapacity else remainingAmount) in
        if routeAmount = 0
          then optimizeRoute_loop tIn tOut amount ps routes legs expectedAmountOut remainingAmount
        else
          bindE (checked_mul routeAmount PERCENTAGE_BASE) (\<lambda>x.
          bindE (checked_div x amount) (\<lambda>pct.
          bindE (calculateExpectedOutput p tIn tOut routeAmount) (\<lambda>expectedOut.
          bindE (checked_add expectedAmountOut expectedOut) (\<lambda>expectedAmountOut'.
          bindE (checked_sub remainingAmount routeAmount) (\<lambda>remainingAmount'.
          optimizeRoute_loop tIn tOut amount ps
            (routes @ [\<lparr>Route.pool = PoolInfo.pool p, tokenIn = tIn, tokenOut = tOut,
                        percentage = pct\<rparr>])
            (legs @ [routeAmount]) expectedAmountOut' remainingAmount')))))))"

definition optimizeRoute ::
  "address \<Rightarrow> address \<Rightarrow> uint256 \<Rightarrow> PoolInfo list \<Rightarrow> error + (Route list \<times> uint256)" where
  "optimizeRoute tIn tOut amount availablePools =
     bindE (optimizeRoute_loop tIn tOut amount availablePools [] [] 0 amount)
       (\<lambda>(routes, legs, expectedAmountOut, remainingAmount). Inr (routes, expectedAmountOut))"

text \<open>The leg amounts of the same run, in the order of the returned routes.\<close>

definition optimizeRoute_legs ::
  "address \<Rightarrow> address \<Rightarrow> uint256 \<Rightarrow> PoolInfo list \<Rightarrow> error + uint256 list" where
  "optimizeRoute_legs tIn tOut amount availablePools =
     bindE (optimizeRoute_loop tIn tOut amount availablePools [] [] 0 amount)
       (\<lambda>(routes, legs, expectedAmountOut, remainingAmount). Inr legs)"

definition calculateSlippage :: "uint256 \<Rightarrow> uint256 \<Rightarrow> error + uint256" where
  "calculateSlippage expectedAmount actualAmount =
     (if expectedAmount = 0 then Inr 0
      else if actualAmount \<ge> expectedAmount then Inr 0
      else bindE (checked_sub expectedAmount actualAmount) (\<lambda>d.
           bindE (checked_mul d PERCENTAGE_BASE) (\<lambda>x. checked_div x expectedAmount)))"

subsection \<open>The formulas of the specification\<close>

text \<open>
  The capacity of a venue, 30 percent of its liquidity, and the capacity that the first
  \<open>MAX_ROUTES\<close> usable venues (matching pair, positive capacity) offer together.
\<close>

definition capacity :: "PoolInfo \<Rightarrow> nat" where
  "capacity p = liquidity p * 3000 div 10000"

definition usable :: "address \<Rightarrow> address \<Rightarrow> PoolInfo \<Rightarrow> bool" where
  "usable tIn tOut p \<longleftrightarrow> isValidPool p tIn tOut \<and> 0 < capacity p"

definition total_capacity :: "address \<Rightarrow> address \<Rightarrow> PoolInfo list \<Rightarrow> nat" where
  "total_capacity tIn tOut ps = sum_list (map capacity (filter (usable tIn tOut) ps))"

definition routable_capacity :: "nat \<Rightarrow> address \<Rightarrow> address \<Rightarrow> PoolInfo list \<Rightarrow> nat" where
  "routable_capacity k tIn tOut ps =
     sum_list (take k (map capacity (filter (usable tIn tOut) ps)))"


definition expectedOutput_ppm :: "nat \<Rightarrow> nat \<Rightarrow> nat" where
  "expectedOutput_ppm a f = (a - a * f div 1000000) * 997 div 1000"


text \<open>
  The allocation as the specification promises it, for the routes and leg amounts of a
  run: the legs fill the request up to the total capacity on offer, and the percentages
  add up to \<open>10000\<close> within \<open>entries - 1\<close> basis points.
\<close>

definition allocation_as_specified ::
  "address \<Rightarrow> address \<Rightarrow> nat \<Rightarrow> PoolInfo list \<Rightarrow> Route list \<Rightarrow> nat list \<Rightarrow> bool" where
  "allocation_as_specified tIn tOut amount ps routes legs \<longleftrightarrow>
     sum_list legs = min amount (total_capacity tIn tOut ps) \<and>
     length routes \<le> MAX_ROUTES \<and>
     map percentage routes = map (\<lambda>a. a * 10000 div amount) legs \<and>
     sum_list (map percentage routes) \<le> 10000 \<and>
     10000 \<le> sum_list (map percentage routes) + (length routes - 1)"

section \<open>RouterDefense\<close>

text \<open>
  The storage of the contract. A Solidity mapping is a total function whose unset keys hold
  the zero value. \<open>owner\<close> is the slot of the inherited \<open>Ownable\<close>; the array
  \<open>supportedPools\<close> is never written or read and is left out.
\<close>

record Storage =
  swapRouter :: address
  owner :: address
  commitments :: "address \<Rightarrow> CommitRevealOrder"
  usedCommitments :: "bytes32 \<Rightarrow> bool"
  revealedOrders :: "address list"
  tokenPairPools :: "address \<Rightarrow> address \<Rightarrow> address list"

text \<open>\<open>msg.sender\<close>, \<open>msg.value\<close> and \<open>block.timestamp\<close> of a call.\<close>

record Msg =
  msg_sender :: address
  msg_value :: uint256
  block_timestamp :: uint256

text \<open>
  What the contract calls but does not define: the hash function, the token contracts
  behind \<open>SafeERC20\<close> and the swap router. They act on the state \<open>'w\<close> of the world outside
  the contract (token balances among it); \<open>None\<close> is a revert of the callee. They are
  functions, so none of them calls back into the contract, and the \<open>nonReentrant\<close> lock
  is free at every entry: it is not modelled. Events and the gas figures of
  \<open>batchExecuteRevealed\<close> leave the state as it is and are left out too.
\<close>

type_synonym preimage =
  "address \<times> address \<times> address \<times> uint256 \<times> uint256 \<times> address \<times> uint256 \<times> uint256 \<times> bytes32"

record 'w Collaborators =
  this :: address
  keccak256 :: "preimage \<Rightarrow> bytes32"
  safeTransferFrom :: "address \<Rightarrow> address \<Rightarrow> address \<Rightarrow> uint256 \<Rightarrow> 'w \<Rightarrow> 'w option"
  safeApprove :: "address \<Rightarrow> address \<Rightarrow> uint256 \<Rightarrow> 'w \<Rightarrow> 'w option"
  exactInputSingle :: "ExactInputSingleParams \<Rightarrow> uint256 \<Rightarrow> 'w \<Rightarrow> (uint256 \<times> 'w) option"

definition COMMIT_REVEAL_DELAY :: nat where
  "COMMIT_REVEAL_DELAY = 60"

definition MAX_BATCH_SIZE :: nat where
  "MAX_BATCH_SIZE = 20"

definition SLIPPAGE_PROTECTION :: nat where
  "SLIPPAGE_PROTECTION = 500"

definition getWETH :: address where
  "getWETH = 0xC02aaA39b223FE8D0A0e5C4F27eAD9083C756Cc2"

definition emptyOrder :: CommitRevealOrder where
  "emptyOrder = \<lparr>commitment = 0, deadline = 0, revealed = False, executed = False\<rparr>"

definition pushPool ::
  "address \<Rightarrow> address \<Rightarrow> address \<Rightarrow> (address \<Rightarrow> address \<Rightarrow> address list) \<Rightarrow>
     (address \<Rightarrow> address \<Rightarrow> address list)" where
  "pushPool tokenA tokenB pl pools = pools(tokenA := (pools tokenA)(tokenB := pools tokenA tokenB @ [pl]))"

definition initializePools :: "address \<Rightarrow> address \<Rightarrow> address list" where
  "initializePools =
     (let WETH = getWETH;
          USDC = 0xA0B86A33E6417C82bdDB8E35c5B14bBc6c3E6d7C;
          DAI = 0x6B175474E89094C44Da98b954EedeAC495271d0F;
          poolWETH_USDC = 0x8ad599c3A0ff1De082011EFDDc58f1908eb6e6D8;
          poolWETH_DAI = 0xC2e9F25Be6257c210d7Adf0D4Cd6E3E881ba25f8;
          poolUSDC_DAI = 0x5777d92f208679DB4b9778590Fa3CAB3aC9e2168
      in pushPool DAI USDC poolUSDC_DAI (pushPool USDC DAI poolUSDC_DAI
        (pushPool DAI WETH poolWETH_DAI (pushPool WETH DAI poolWETH_DAI
        (pushPool USDC WETH poolWETH_USDC (pushPool WETH USDC poolWETH_USDC
        (\<lambda>a b. [])))))))"

text \<open>The state after the constructor, deployed by \<open>deployer\<close>.\<close>

definition constructor :: "address \<Rightarrow> address \<Rightarrow> Storage" where
  "constructor deployer router =
     \<lparr>swapRouter = router, owner = deployer, commitments = (\<lambda>a. emptyOrder),
      usedCommitments = (\<lambda>h. False), revealedOrders = [],
      tokenPairPools = initializePools\<rparr>"

subsection \<open>Routing and execution\<close>

definition getAvailablePools :: "Storage \<Rightarrow> address \<Rightarrow> address \<Rightarrow> PoolInfo list" where
  "getAvailablePools st tIn tOut =
     map (\<lambda>pl. \<lparr>pool = pl,
                 token0 = (if tIn < tOut then tIn else tOut),
                 token1 = (if tIn < tOut then tOut else tIn),
                 liquidity = 1000000 * 10 ^ 18,
                 fee = 3000\<rparr>)
       (tokenPairPools st tIn tOut)"

definition getOptimalRoute ::
  "Storage \<Rightarrow> address \<Rightarrow> address \<Rightarrow> uint256 \<Rightarrow> error + (Route list \<times> uint256)" where
  "getOptimalRoute st tIn tOut amount =
     optimizeRoute tIn tOut amount (getAvailablePools st tIn tOut)"

definition executeSingleRoute ::
  "'w Collaborators \<Rightarrow> Storage \<Rightarrow> Route \<Rightarrow> uint256 \<Rightarrow> address \<Rightarrow> uint256 \<Rightarrow> 'w \<Rightarrow>
     error + (uint256 \<times> 'w)" where
  "executeSingleRoute env st route amount rcpt dl w =
     bindE (if Route.tokenIn route \<noteq> 0
            then (case safeApprove env (Route.tokenIn route) (swapRouter st) amount w of
                    None \<Rightarrow> Inl TransferFailed | Some w' \<Rightarrow> Inr w')
            else Inr w) (\<lambda>w1.
     let swapParams =
           \<lparr>ExactInputSingleParams.tokenIn =
               (if Route.tokenIn route = 0 then getWETH else Route.tokenIn route),
             tokenOut = (if Route.tokenOut route = 0 then getWETH else Route.tokenOut route),
             fee = 3000, recipient = rcpt, deadline = dl, amountIn = amount,
             amountOutMinimum = 0, sqrtPriceLimitX96 = 0\<rparr>
     in case (if Route.tokenIn route = 0
              then exactInputSingle env swapParams amount w1
              else exactInputSingle env swapParams 0 w1) of
          None \<Rightarrow> Inl VenueExecutionError
        | Some r \<Rightarrow> Inr r)"

text \<open>
  The loop of \<open>_executeMultiPathSwap\<close> over the routes still to run. \<open>spent\<close> lists the
  \<open>routeAmountIn\<close> of every call of \<open>_executeSingleRoute\<close> made so far.
\<close>

fun executeMultiPathSwap_loop ::
  "'w Collaborators \<Rightarrow> Storage \<Rightarrow> SwapParams \<Rightarrow> Route list \<Rightarrow> uint256 \<Rightarrow> uint256 \<Rightarrow>
     uint256 list \<Rightarrow> 'w \<Rightarrow> error + (uint256 \<times> uint256 \<times> uint256 list \<times> 'w)" where
  "executeMultiPathSwap_loop env st params [] totalAmountOut remainingAmountIn spent w =
     Inr (totalAmountOut, remainingAmountIn, spent, w)"
| "executeMultiPathSwap_loop env st params (r # rs) totalAmountOut remainingAmountIn spent w =
     (if remainingAmountIn = 0 then Inr (totalAmountOut, remainingAmountIn, spent, w)
      else
        bindE (checked_mul (SwapParams.amountIn params) (percentage r)) (\<lambda>x.
        bindE (checked_div x 10000) (\<lambda>a.
        let routeAmountIn = (if a > remainingAmountIn then remainingAmountIn else a) in
        if routeAmountIn > 0 then
          bindE (executeSingleRoute env st r routeAmountIn (SwapParams.recipient params)
                   (SwapParams.deadline params) w) (\<lambda>(routeAmountOut, w').
          bindE (checked_add totalAmountOut routeAmountOut) (\<lambda>totalAmountOut'.
          bindE (checked_sub remainingAmountIn routeAmountIn) (\<lambda>remainingAmountIn'.
          executeMultiPathSwap_loop env st params rs totalAmountOut' remainingAmountIn'
            (spent @ [routeAmountIn]) w')))
        else executeMultiPathSwap_loop env st params rs totalAmountOut remainingAmountIn spent w)))"

definition executeMultiPathSwap ::
  "'w Collaborators \<Rightarrow> Storage \<Rightarrow> SwapParams \<Rightarrow> Route list \<Rightarrow> 'w \<Rightarrow> error + (uint256 \<times> 'w)" where
  "executeMultiPathSwap env st params routes w =
     (if \<not> length routes > 0 then Inl NoRoutesAvailable
      else bindE (executeMultiPathSwap_loop env st params routes 0 (SwapParams.amountIn params) [] w)
             (\<lambda>(totalAmountOut, remainingAmountIn, spent, w'). Inr (totalAmountOut, w')))"



text \<open>
  The pull of the input funds, which \<open>protectedSwap\<close> and \<open>revealAndExecute\<close> both contain:
  a token transfer from the caller to the contract, or the check of the attached value.
\<close>

definition pullFunds :: "'w Collaborators \<Rightarrow> Msg \<Rightarrow> SwapParams \<Rightarrow> 'w \<Rightarrow> error + 'w" where
  "pullFunds env m params w =
     (if SwapParams.tokenIn params \<noteq> 0
      then (case safeTransferFrom env (SwapParams.tokenIn params) (msg_sender m) (this env)
                   (SwapParams.amountIn params) w of
              None \<Rightarrow> Inl TransferFailed | Some w' \<Rightarrow> Inr w')
      else if \<not> msg_value m = SwapParams.amountIn params then Inl IncorrectETHAmount
      else Inr w)"

definition protectedSwap ::
  "'w Collaborators \<Rightarrow> Msg \<Rightarrow> SwapParams \<Rightarrow> Storage \<times> 'w \<Rightarrow> error + (uint256 \<times> Storage \<times> 'w)" where
  "protectedSwap env m params s =
     (case s of (st, w) \<Rightarrow>
      if \<not> SwapParams.deadline params \<ge> block_timestamp m then Inl ExpiredDeadline
      else if \<not> SwapParams.amountIn params > 0 then Inl InvalidAmount
      else
        bindE (pullFunds env m params w) (\<lambda>w1.
        bindE (getOptimalRoute st (SwapParams.tokenIn params) (SwapParams.tokenOut params)
                 (SwapParams.amountIn params)) (\<lambda>(routes, expectedAmountOut).
        if \<not> expectedAmountOut \<ge> amountOutMin params then Inl InsufficientOutput
        else
          bindE (executeMultiPathSwap env st params routes w1) (\<lambda>(amountOut, w2).
          if \<not> amountOut \<ge> amountOutMin params then Inl SlippageExceeded
          else Inr (amountOut, st, w2)))))"

subsection \<open>The commit-reveal ledger\<close>

text \<open>The modifier \<open>validCommitment\<close>.\<close>

definition validCommitment :: "Storage \<Rightarrow> bytes32 \<Rightarrow> error + unit" where
  "validCommitment st c =
     (if \<not> c \<noteq> 0 then Inl InvalidCommitment
      else if \<not> \<not> usedCommitments st c then Inl CommitmentUsed
      else Inr ())"

text \<open>The modifier \<open>validReveal\<close>. The source defines it and attaches it to no function.\<close>

definition validReveal :: "Storage \<Rightarrow> Msg \<Rightarrow> bytes32 \<Rightarrow> error + unit" where
  "validReveal st m c =
     (let order = commitments st (msg_sender m) in
      if \<not> commitment order = c then Inl InvalidReveal
      else if \<not> \<not> revealed order then Inl AlreadyRevealed
      else if \<not> deadline order \<ge> block_timestamp m then Inl CommitmentExpired
      else bindE (checked_sub (deadline order) COMMIT_REVEAL_DELAY) (\<lambda>t.
           if \<not> block_timestamp m \<ge> t then Inl RevealTooEarly else Inr ()))"

definition commitOrder :: "Msg \<Rightarrow> bytes32 \<Rightarrow> uint256 \<Rightarrow> Storage \<Rightarrow> error + Storage" where
  "commitOrder m c dl st =
     bindE (validCommitment st c) (\<lambda>_.
     bindE (checked_add (block_timestamp m) COMMIT_REVEAL_DELAY) (\<lambda>soonest.
     if \<not> dl > soonest then Inl DeadlineTooSoon
     else
       bindE (checked_add (block_timestamp m) 3600) (\<lambda>latest.
       if \<not> dl \<le> latest then Inl DeadlineTooFar
       else Inr (st\<lparr>commitments := (commitments st)(msg_sender m :=
                        \<lparr>commitment = c, deadline = dl, revealed = False, executed = False\<rparr>),
                    usedCommitments := (usedCommitments st)(c := True)\<rparr>))))"

definition revealAndExecute ::
  "'w Collaborators \<Rightarrow> Msg \<Rightarrow> SwapParams \<Rightarrow> uint256 \<Rightarrow> bytes32 \<Rightarrow> Storage \<times> 'w \<Rightarrow>
     error + (uint256 \<times> Storage \<times> 'w)" where
  "revealAndExecute env m params nonce salt s =
     (case s of (st, w) \<Rightarrow>
      let expectedCommitment = keccak256 env
            (msg_sender m, SwapParams.tokenIn params, SwapParams.tokenOut params,
             SwapParams.amountIn params, amountOutMin params, SwapParams.recipient params,
             SwapParams.deadline params, nonce, salt)
      in
      if \<not> commitment (commitments st (msg_sender m)) = expectedCommitment then Inl InvalidReveal
      else
        let order = commitments st (msg_sender m) in
        if \<not> \<not> revealed order then Inl AlreadyRevealed
        else if \<not> \<not> executed order then Inl AlreadyExecuted
        else if \<not> deadline order \<ge> block_timestamp m then Inl CommitmentExpired
        else
          let st1 = st\<lparr>commitments := (commitments st)(msg_sender m := order\<lparr>revealed := True\<rparr>),
                       revealedOrders := revealedOrders st @ [msg_sender m]\<rparr>
          in
          bindE (pullFunds env m params w) (\<lambda>w1.
          bindE (getOptimalRoute st1 (SwapParams.tokenIn params) (SwapParams.tokenOut params)
                   (SwapParams.amountIn params)) (\<lambda>(routes, expectedAmountOut).
          bindE (executeMultiPathSwap env st1 params routes w1) (\<lambda>(amountOut, w2).
          Inr (amountOut,
               st1\<lparr>commitments := (commitments st1)(msg_sender m :=
                      (commitments st1 (msg_sender m))\<lparr>executed := True\<rparr>)\<rparr>,
               w2)))))"

text \<open>
  The loop of \<open>batchExecuteRevealed\<close> over the entries of \<open>revealedOrders\<close> still to visit;
  \<open>n\<close> is the counter \<open>executed\<close> of the source. It stays below \<open>MAX_BATCH_SIZE + 1\<close>, so
  its increment cannot overflow.
\<close>

fun batchExecuteRevealed_loop ::
  "uint256 \<Rightarrow> address list \<Rightarrow> (address \<Rightarrow> CommitRevealOrder) \<Rightarrow> nat \<Rightarrow>
     (address \<Rightarrow> CommitRevealOrder) \<times> nat" where
  "batchExecuteRevealed_loop now [] cs n = (cs, n)"
| "batchExecuteRevealed_loop now (user # rest) cs n =
     (if \<not> n < MAX_BATCH_SIZE then (cs, n)
      else
        let order = cs user in
        if revealed order \<and> \<not> executed order \<and> deadline order \<ge> now
        then batchExecuteRevealed_loop now rest (cs(user := order\<lparr>executed := True\<rparr>)) (n + 1)
        else batchExecuteRevealed_loop now rest cs n)"

text \<open>The condition under which the loop marks an order.\<close>

definition eligible :: "uint256 \<Rightarrow> CommitRevealOrder \<Rightarrow> bool" where
  "eligible now order \<longleftrightarrow> revealed order \<and> \<not> executed order \<and> now \<le> deadline order"

text \<open>\<open>_clearRevealedOrders\<close>: \<open>delete revealedOrders\<close>.\<close>

definition clearRevealedOrders :: "Storage \<Rightarrow> Storage" where
  "clearRevealedOrders st = st\<lparr>revealedOrders := []\<rparr>"

definition batchExecuteRevealed :: "Msg \<Rightarrow> Storage \<Rightarrow> error + Storage" where
  "batchExecuteRevealed m st =
     (if \<not> length (revealedOrders st) > 0 then Inl NoRevealedOrders
      else
        case batchExecuteRevealed_loop (block_timestamp m) (revealedOrders st) (commitments st) 0 of
          (cs, n) \<Rightarrow>
            let st1 = st\<lparr>commitments := cs\<rparr> in
            Inr (if n > 0 then clearRevealedOrders st1 else st1))"

definition addPool :: "Msg \<Rightarrow> address \<Rightarrow> address \<Rightarrow> address \<Rightarrow> Storage \<Rightarrow> error + Storage" where
  "addPool m tokenA tokenB pl st =
     (if \<not> owner st = msg_sender m then Inl NotOwner
      else Inr (st\<lparr>tokenPairPools := pushPool tokenB tokenA pl (pushPool tokenA tokenB pl (tokenPairPools st))\<rparr>))"

subsection \<open>Transactions\<close>

text \<open>
  A call of an external function is one transaction: when it reverts, every effect of the
  call is undone, on the storage and on the world outside alike, and the state is the one
  before the call. The calls are those of the functions that \<open>RouterDefense\<close> declares;
  the functions it inherits from \<open>Ownable\<close> write the slot \<open>owner\<close> only.
\<close>

datatype call =
    ProtectedSwap SwapParams
  | CommitOrder bytes32 uint256
  | RevealAndExecute SwapParams uint256 bytes32
  | BatchExecuteRevealed
  | AddPool address address address

fun dispatch :: "'w Collaborators \<Rightarrow> Msg \<Rightarrow> call \<Rightarrow> Storage \<times> 'w \<Rightarrow> error + (Storage \<times> 'w)" where
  "dispatch env m (ProtectedSwap params) s =
     bindE (protectedSwap env m params s) (\<lambda>(amountOut, s'). Inr s')"
| "dispatch env m (CommitOrder c dl) s =
     bindE (commitOrder m c dl (fst s)) (\<lambda>st'. Inr (st', snd s))"
| "dispatch env m (RevealAndExecute params nonce salt) s =
     bindE (revealAndExecute env m params nonce salt s) (\<lambda>(amountOut, s'). Inr s')"
| "dispatch env m BatchExecuteRevealed s =
     bindE (batchExecuteRevealed m (fst s)) (\<lambda>st'. Inr (st', snd s))"
| "dispatch env m (AddPool tokenA tokenB pl) s =
     bindE (addPool m tokenA tokenB pl (fst s)) (\<lambda>st'. Inr (st', snd s))"

definition transact :: "'w Collaborators \<Rightarrow> Msg \<times> call \<Rightarrow> Storage \<times> 'w \<Rightarrow> Storage \<times> 'w" where
  "transact env mc s = (case dispatch env (fst mc) (snd mc) s of Inl e \<Rightarrow> s | Inr s' \<Rightarrow> s')"

fun run :: "'w Collaborators \<Rightarrow> (Msg \<times> call) list \<Rightarrow> Storage \<times> 'w \<Rightarrow> Storage \<times> 'w" where
  "run env [] s = s"
| "run env (mc # mcs) s = run env mcs (transact env mc s)"


text \<open>
  An invariant of the ledger: the zero hash is not marked used, and a slot that holds the
  zero hash holds the zero deadline, as an empty slot does.
\<close>

definition ledger_inv :: "Storage \<Rightarrow> bool" where
  "ledger_inv st \<longleftrightarrow>
     \<not> usedCommitments st 0 \<and>
     (\<forall>a. commitment (commitments st a) = 0 \<longrightarrow> deadline (commitments st a) = 0)"



section \<open>Example inputs\<close>

text \<open>
  Concrete collaborators, used where a statement is run on an input: the world is a table
  of token balances, a transfer fails when the payer's balance is too small, approvals
  always succeed, the hash is a simple function of nonce and salt, and the router takes
  the input amount from the contract and pays half of it to the recipient.
\<close>

type_synonym balances = "address \<Rightarrow> address \<Rightarrow> nat"

definition ledgerTransfer ::
  "address \<Rightarrow> address \<Rightarrow> address \<Rightarrow> nat \<Rightarrow> balances \<Rightarrow> balances option" where
  "ledgerTransfer token payer payee amount w =
     (if amount \<le> w token payer
      then (let b = (w token)(payer := w token payer - amount)
            in Some (w(token := b(payee := b payee + amount))))
      else None)"

definition exampleRouter :: "address \<Rightarrow> ExactInputSingleParams \<Rightarrow> nat \<Rightarrow> balances \<Rightarrow> (nat \<times> balances) option" where
  "exampleRouter self ps v w =
     (case ledgerTransfer (ExactInputSingleParams.tokenIn ps) self 0xE0
             (ExactInputSingleParams.amountIn ps) w of
        None \<Rightarrow> None
      | Some w1 \<Rightarrow>
          (let out = ExactInputSingleParams.amountIn ps div 2;
               tOut = ExactInputSingleParams.tokenOut ps;
               rcpt = ExactInputSingleParams.recipient ps
           in Some (out, w1(tOut := (w1 tOut)(rcpt := w1 tOut rcpt + out)))))"

definition exampleCollaborators :: "balances Collaborators" where
  "exampleCollaborators =
     \<lparr>this = 0xC0,
      keccak256 = (\<lambda>(sender, tIn, tOut, aIn, aMin, rcpt, dl, nonce, salt). salt + of_nat nonce + 1),
      safeTransferFrom = ledgerTransfer,
      safeApprove = (\<lambda>token spender amount w. Some w),
      exactInputSingle = exampleRouter 0xC0\<rparr>"

definition USDC :: address where
  "USDC = 0xA0B86A33E6417C82bdDB8E35c5B14bBc6c3E6d7C"

definition exampleStorage :: Storage where
  "exampleStorage = constructor 0xD0 0xE0"

definition exampleBalances :: balances where
  "exampleBalances = (\<lambda>token holder. if holder = 0xA1 \<or> holder = 0xC0 then 5000 else 0)"

definition exampleParams :: "uint256 \<Rightarrow> uint256 \<Rightarrow> SwapParams" where
  "exampleParams minOut dl =
     \<lparr>SwapParams.tokenIn = USDC, tokenOut = getWETH, amountIn = 1000, amountOutMin = minOut,
      recipient = 0xA1, deadline = dl\<rparr>"

definition exampleMsg :: "address \<Rightarrow> uint256 \<Rightarrow> Msg" where
  "exampleMsg a t = \<lparr>msg_sender = a, msg_value = 0, block_timestamp = t\<rparr>"

definition examplePool :: "nat \<Rightarrow> nat \<Rightarrow> PoolInfo" where
  "examplePool l f = \<lparr>pool = 0x50, token0 = 1, token1 = 2, liquidity = l, fee = f\<rparr>"

text \<open>The freshly deployed contract after the account \<open>0xA1\<close> has committed the hash 5.\<close>

definition committedOnce :: Storage where
  "committedOnce = exampleStorage\<lparr>commitments := (commitments exampleStorage)(0xA1 :=
                   \<lparr>commitment = 5, deadline = 1100, revealed = False, executed = False\<rparr>),
                usedCommitments := (usedCommitments exampleStorage)(5 := True)\<rparr>"


text \<open>
  A storage whose queue holds two revealed, unexecuted orders: the one of \<open>0xA1\<close> with
  deadline 1100 and the one of \<open>0xA2\<close> with deadline 900.
\<close>

definition revealedOrder :: "uint256 \<Rightarrow> CommitRevealOrder" where
  "revealedOrder dl = \<lparr>commitment = 9, deadline = dl, revealed = True, executed = False\<rparr>"

definition expiredStorage :: Storage where
  "expiredStorage = exampleStorage
     \<lparr>commitments := (\<lambda>u. if u = 0xA1 then revealedOrder 1100
                           else if u = 0xA2 then revealedOrder 900 else emptyOrder),
      revealedOrders := [0xA1, 0xA2]\<rparr>"




text \<open>The balances after \<open>0xA1\<close> has paid 1000 units of USDC to the contract.\<close>

definition pulledBalances :: balances where
  "pulledBalances = exampleBalances(USDC := (exampleBalances USDC)(0xA1 := 4000, 0xC0 := 6000))"

section \<open>Auxiliary facts\<close>

subsection \<open>Checked arithmetic and the formulas of the optimizer\<close>

lemma bindE_Inr [simp]: "bindE (Inr x) f = f x" by (simp add: bindE_def)
lemma bindE_Inl [simp]: "bindE (Inl e) f = Inl e" by (simp add: bindE_def)

lemma calculatePoolCapacity_ok:
  "liquidity p * 3000 \<le> MAX_UINT256 \<Longrightarrow> calculatePoolCapacity p a = Inr (capacity p)"
  by (simp add: calculatePoolCapacity_def checked_mul_def checked_div_def capacity_def)

lemma fee_amount_le: "f \<le> 1000000 \<Longrightarrow> a * f div 1000000 \<le> (a::nat)"
proof -
  assume "f \<le> 1000000"
  then have "a * f \<le> a * 1000000" by simp
  then have "a * f div 1000000 \<le> a * 1000000 div 1000000" by (rule div_le_mono)
  then show ?thesis by simp
qed

lemma calculateExpectedOutput_ok:
  assumes "fee p \<le> 1000000" "a * 1000000 \<le> MAX_UINT256"
  shows "calculateExpectedOutput p tIn tOut a = Inr (expectedOutput_ppm a (fee p))"
proof -
  have 1: "a * fee p \<le> MAX_UINT256"
    using assms by (meson le_trans mult_le_mono2)
  have 2: "a * fee p div 1000000 \<le> a" using assms(1) by (rule fee_amount_le)
  have "(a - a * fee p div 1000000) * 997 \<le> a * 1000000"
    by (rule le_trans [OF mult_le_mono1 [OF diff_le_self]]) simp
  then have 3: "(a - a * fee p div 1000000) * 997 \<le> MAX_UINT256" using assms(2) by simp
  show ?thesis
    by (simp add: calculateExpectedOutput_def checked_mul_def checked_div_def checked_sub_def
        expectedOutput_ppm_def 1 2 3)
qed

lemma expectedOutput_ppm_le: "expectedOutput_ppm a f \<le> a"
proof -
  have "(a - a * f div 1000000) * 997 \<le> a * 997" by simp
  also have "\<dots> \<le> a * 1000" by simp
  finally have "(a - a * f div 1000000) * 997 div 1000 \<le> a * 1000 div 1000" by (rule div_le_mono)
  then show ?thesis by (simp add: expectedOutput_ppm_def)
qed

lemma div_add_lower: "x div A + y div A \<le> (x + y) div (A::nat)"
  by (subst div_add1_eq [of x y A]) (rule le_add1)

lemma div_add_upper:
  assumes "0 < (A::nat)" shows "(x + y) div A \<le> x div A + y div A + 1"
proof -
  have "x mod A < A" "y mod A < A" using assms by simp_all
  then have "x mod A + y mod A < 2 * A" by linarith
  then have "(x mod A + y mod A) div A < 2"
    using assms by (simp add: div_less_iff_less_mult mult.commute)
  then have "(x mod A + y mod A) div A \<le> 1" by simp
  then show ?thesis by (subst div_add1_eq [of x y A]) (rule add_left_mono)
qed

lemma floor_sum_upper:
  "sum_list (map (\<lambda>a. a * B div A) xs) \<le> sum_list xs * B div (A::nat)"
proof (induction xs)
  case Nil
  show ?case by simp
next
  case (Cons a xs)
  have "a * B div A + sum_list xs * B div A \<le> (a * B + sum_list xs * B) div A"
    by (rule div_add_lower)
  with Cons show ?case by (simp add: add_mult_distrib)
qed

lemma floor_sum_lower:
  assumes "0 < (A::nat)" and "xs \<noteq> []"
  shows "sum_list xs * B div A + 1 \<le> sum_list (map (\<lambda>a. a * B div A) xs) + length xs"
  using assms(2)
proof (induction xs)
  case Nil
  then show ?case by simp
next
  case (Cons a xs)
  show ?case
  proof (cases "xs = []")
    case True
    then show ?thesis by simp
  next
    case False
    have "(a * B + sum_list xs * B) div A \<le> a * B div A + sum_list xs * B div A + 1"
      using assms(1) by (rule div_add_upper)
    with Cons.IH [OF False] show ?thesis by (simp add: add_mult_distrib)
  qed
qed


subsection \<open>The loop of optimizeRoute\<close>

lemma routable_capacity_Nil [simp]: "routable_capacity k tIn tOut [] = 0"
  by (simp add: routable_capacity_def)

lemma routable_capacity_0 [simp]: "routable_capacity 0 tIn tOut ps = 0"
  by (simp add: routable_capacity_def)

lemma routable_capacity_skip:
  "\<not> usable tIn tOut p \<Longrightarrow> routable_capacity k tIn tOut (p # ps) = routable_capacity k tIn tOut ps"
  by (simp add: routable_capacity_def)

lemma routable_capacity_take:
  "usable tIn tOut p \<Longrightarrow>
   routable_capacity (Suc k) tIn tOut (p # ps) = capacity p + routable_capacity k tIn tOut ps"
  by (simp add: routable_capacity_def)

lemma optimizeRoute_loop_spec:
  assumes "0 < amount" and "amount * 1000000 \<le> MAX_UINT256"
    and "\<forall>p\<in>set ps. liquidity p * 3000 \<le> MAX_UINT256 \<and> fee p \<le> 1000000"
    and "eo + rem \<le> amount"
  shows "\<exists>routes' legs' eo' rem'.
     optimizeRoute_loop tIn tOut amount ps routes legs eo rem
       = Inr (routes @ routes', legs @ legs', eo', rem') \<and>
     length routes' = length legs' \<and>
     length routes' \<le> MAX_ROUTES - length routes \<and>
     sum_list legs' = min rem (routable_capacity (MAX_ROUTES - length routes) tIn tOut ps) \<and>
     rem' + sum_list legs' = rem \<and>
     eo' + rem' \<le> amount \<and>
     map percentage routes' = map (\<lambda>a. a * 10000 div amount) legs' \<and>
     (\<forall>a\<in>set legs'. 0 < a)"
  using assms(3,4)
proof (induction ps arbitrary: routes legs eo rem)
  case Nil
  then show ?case by simp
next
  case (Cons p ps)
  have pools: "\<forall>q\<in>set ps. liquidity q * 3000 \<le> MAX_UINT256 \<and> fee q \<le> 1000000"
    and liq: "liquidity p * 3000 \<le> MAX_UINT256" and feep: "fee p \<le> 1000000"
    using Cons.prems(1) by simp_all
  note cap = calculatePoolCapacity_ok [OF liq]
  show ?case
  proof (cases "length routes < MAX_ROUTES \<and> 0 < rem")
    case False
    then have "min rem (routable_capacity (MAX_ROUTES - length routes) tIn tOut (p # ps)) = 0"
      by auto
    with False Cons.prems(2) show ?thesis by simp
  next
    case go: True
    show ?thesis
    proof (cases "usable tIn tOut p")
      case False
      then have same: "optimizeRoute_loop tIn tOut amount (p # ps) routes legs eo rem
          = optimizeRoute_loop tIn tOut amount ps routes legs eo rem"
        using go by (auto simp: usable_def cap Let_def)
      show ?thesis
        using Cons.IH [OF pools Cons.prems(2), of routes legs]
        by (simp only: same routable_capacity_skip [OF False])
    next
      case True
      define ra where "ra = (if capacity p < rem then capacity p else rem)"
      define out where "out = expectedOutput_ppm ra (fee p)"
      define r where "r = \<lparr>Route.pool = PoolInfo.pool p, tokenIn = tIn, tokenOut = tOut,
                        percentage = ra * 10000 div amount\<rparr>"
      have ra_pos: "0 < ra" and ra_le: "ra \<le> rem"
        using True go by (auto simp: ra_def usable_def)
      have ra_amount: "ra \<le> amount" using ra_le Cons.prems(2) by simp
      then have big: "ra * 1000000 \<le> MAX_UINT256"
        using assms(2) by (meson le_trans mult_le_mono1)
      have "ra * 10000 \<le> ra * 1000000" by simp
      then have m1: "ra * 10000 \<le> MAX_UINT256" using big by (rule le_trans)
      have out_le: "out \<le> ra" by (simp add: out_def expectedOutput_ppm_le)
      have "eo + out \<le> amount" using out_le ra_le Cons.prems(2) by simp
      moreover have "amount \<le> MAX_UINT256" using assms(2) by simp
      ultimately have m2: "eo + out \<le> MAX_UINT256" by simp
      have step: "optimizeRoute_loop tIn tOut amount (p # ps) routes legs eo rem
          = optimizeRoute_loop tIn tOut amount ps (routes @ [r]) (legs @ [ra]) (eo + out) (rem - ra)"
        using go True ra_pos ra_le m1 m2 assms(1)
        by (simp add: usable_def cap Let_def ra_def [symmetric] PERCENTAGE_BASE_def
            checked_mul_def checked_div_def checked_add_def checked_sub_def
            calculateExpectedOutput_ok [OF feep big] out_def [symmetric] r_def [symmetric])
      have pre: "eo + out + (rem - ra) \<le> amount"
        using out_le ra_le Cons.prems(2) by simp
      obtain routes' legs' eo' rem' where
        res: "optimizeRoute_loop tIn tOut amount ps (routes @ [r]) (legs @ [ra]) (eo + out) (rem - ra)
                = Inr ((routes @ [r]) @ routes', (legs @ [ra]) @ legs', eo', rem')"
        and len: "length routes' = length legs'"
        and bound: "length routes' \<le> MAX_ROUTES - length (routes @ [r])"
        and total: "sum_list legs' =
              min (rem - ra) (routable_capacity (MAX_ROUTES - length (routes @ [r])) tIn tOut ps)"
        and rest: "rem' + sum_list legs' = rem - ra"
        and inv: "eo' + rem' \<le> amount"
        and pct: "map percentage routes' = map (\<lambda>a. a * 10000 div amount) legs'"
        and pos: "\<forall>a\<in>set legs'. 0 < a"
        using Cons.IH [OF pools pre, of "routes @ [r]" "legs @ [ra]"] by blast
      have k: "MAX_ROUTES - length routes = Suc (MAX_ROUTES - length (routes @ [r]))"
        using go by (simp add: Suc_diff_Suc)
      have sum: "ra + min (rem - ra) (routable_capacity (MAX_ROUTES - length (routes @ [r])) tIn tOut ps)
          = min rem (routable_capacity (MAX_ROUTES - length routes) tIn tOut (p # ps))"
        unfolding k routable_capacity_take [OF True] by (auto simp: ra_def min_def)
      have final: "optimizeRoute_loop tIn tOut amount (p # ps) routes legs eo rem
          = Inr (routes @ (r # routes'), legs @ (ra # legs'), eo', rem')"
        by (simp only: step res append_assoc append_Cons append_Nil)
      have "length (r # routes') = length (ra # legs')" using len by simp
      moreover have "length (r # routes') \<le> MAX_ROUTES - length routes"
        using bound k by simp
      moreover have "sum_list (ra # legs')
          = min rem (routable_capacity (MAX_ROUTES - length routes) tIn tOut (p # ps))"
        using total sum by simp
      moreover have "rem' + sum_list (ra # legs') = rem" using rest ra_le by simp
      moreover have "map percentage (r # routes') = map (\<lambda>a. a * 10000 div amount) (ra # legs')"
        using pct by (simp add: r_def)
      moreover have "\<forall>a\<in>set (ra # legs'). 0 < a" using pos ra_pos by simp
      ultimately show ?thesis using final inv by blast
    qed
  qed
qed

lemma routable_capacity_pos:
  "\<exists>p\<in>set ps. usable tIn tOut p \<Longrightarrow> 0 < routable_capacity (Suc k) tIn tOut ps"
proof (induction ps)
  case Nil
  then show ?case by simp
next
  case (Cons p ps)
  show ?case
  proof (cases "usable tIn tOut p")
    case True
    then show ?thesis by (simp add: routable_capacity_take usable_def)
  next
    case False
    with Cons show ?thesis by (simp add: routable_capacity_skip)
  qed
qed

lemma routable_capacity_all:
  "length (filter (usable tIn tOut) ps) \<le> k \<Longrightarrow>
   routable_capacity k tIn tOut ps = total_capacity tIn tOut ps"
  by (simp add: routable_capacity_def total_capacity_def)

subsection \<open>The ledger functions\<close>

lemma commitOrder_zero: "commitOrder m 0 dl st = Inl InvalidCommitment"
  by (simp add: commitOrder_def validCommitment_def)

lemma commitOrder_Inr_iff:
  "commitOrder m c dl st = Inr st' \<longleftrightarrow>
     c \<noteq> 0 \<and> \<not> usedCommitments st c \<and>
     block_timestamp m + 3600 \<le> MAX_UINT256 \<and>
     block_timestamp m + COMMIT_REVEAL_DELAY < dl \<and> dl \<le> block_timestamp m + 3600 \<and>
     st' = st\<lparr>commitments := (commitments st)(msg_sender m :=
                  \<lparr>commitment = c, deadline = dl, revealed = False, executed = False\<rparr>),
               usedCommitments := (usedCommitments st)(c := True)\<rparr>"
  by (auto simp: commitOrder_def validCommitment_def checked_add_def COMMIT_REVEAL_DELAY_def)

lemma used_commitOrder:
  "commitOrder m c dl st = Inr st' \<Longrightarrow> usedCommitments st h \<Longrightarrow> usedCommitments st' h"
  by (auto simp: commitOrder_Inr_iff)

lemma used_batch:
  "batchExecuteRevealed m st = Inr st' \<Longrightarrow> usedCommitments st' = usedCommitments st"
  by (auto simp: batchExecuteRevealed_def clearRevealedOrders_def Let_def split: if_splits prod.splits)

lemma used_addPool:
  "addPool m a b pl st = Inr st' \<Longrightarrow> usedCommitments st' = usedCommitments st"
  by (auto simp: addPool_def split: if_splits)

lemma bindE_eq_Inr: "bindE x f = Inr y \<longleftrightarrow> (\<exists>v. x = Inr v \<and> f v = Inr y)"
  by (cases x) simp_all

lemma used_protectedSwap:
  "protectedSwap env m p (st, w) = Inr (out, st', w') \<Longrightarrow> st' = st"
  by (auto simp: protectedSwap_def bindE_eq_Inr split: if_splits)

lemma revealAndExecute_Inr:
  assumes "revealAndExecute env m p nonce salt (st, w) = Inr (out, st', w')"
  shows "st' = st\<lparr>commitments := (commitments st)(msg_sender m :=
                  (commitments st (msg_sender m))\<lparr>revealed := True, executed := True\<rparr>),
               revealedOrders := revealedOrders st @ [msg_sender m]\<rparr>"
    and "commitment (commitments st (msg_sender m)) = keccak256 env
            (msg_sender m, SwapParams.tokenIn p, SwapParams.tokenOut p,
             SwapParams.amountIn p, amountOutMin p, SwapParams.recipient p,
             SwapParams.deadline p, nonce, salt)"
    and "\<not> revealed (commitments st (msg_sender m))"
    and "\<not> executed (commitments st (msg_sender m))"
    and "block_timestamp m \<le> deadline (commitments st (msg_sender m))"
  using assms
  by (auto simp: revealAndExecute_def Let_def bindE_eq_Inr split: if_splits)

subsection \<open>The loop of batchExecuteRevealed\<close>

lemma batch_loop_Cons:
  "batchExecuteRevealed_loop now (user # rest) cs n =
     (if \<not> n < MAX_BATCH_SIZE then (cs, n)
      else if eligible now (cs user)
        then batchExecuteRevealed_loop now rest (cs(user := (cs user)\<lparr>executed := True\<rparr>)) (n + 1)
        else batchExecuteRevealed_loop now rest cs n)"
  by (simp add: eligible_def Let_def)

lemma batch_loop_step:
  "batchExecuteRevealed_loop now q cs n = (cs', n') \<Longrightarrow>
   cs' u = cs u \<or> (cs' u = (cs u)\<lparr>executed := True\<rparr> \<and> eligible now (cs u) \<and> u \<in> set q)"
proof (induction q arbitrary: cs n)
  case Nil
  then show ?case by simp
next
  case (Cons user rest)
  show ?case
  proof (cases "n < MAX_BATCH_SIZE")
    case False
    with Cons.prems show ?thesis by simp
  next
    case True
    show ?thesis
    proof (cases "eligible now (cs user)")
      case False
      with True Cons.prems have "batchExecuteRevealed_loop now rest cs n = (cs', n')"
        by (simp add: batch_loop_Cons del: batchExecuteRevealed_loop.simps)
      from Cons.IH [OF this] show ?thesis by auto
    next
      case el: True
      with True Cons.prems have
        "batchExecuteRevealed_loop now rest (cs(user := (cs user)\<lparr>executed := True\<rparr>)) (n + 1) = (cs', n')"
        by (simp add: batch_loop_Cons del: batchExecuteRevealed_loop.simps)
      from Cons.IH [OF this] el show ?thesis
        by (cases "u = user") (auto simp: eligible_def)
    qed
  qed
qed

lemma batch_loop_count:
  "batchExecuteRevealed_loop now q cs n = (cs', n') \<Longrightarrow>
   finite {u. cs' u \<noteq> cs u} \<and> card {u. cs' u \<noteq> cs u} + n \<le> n' \<and>
   (n \<le> MAX_BATCH_SIZE \<longrightarrow> n' \<le> MAX_BATCH_SIZE)"
proof (induction q arbitrary: cs n)
  case Nil
  then show ?case by simp
next
  case (Cons user rest)
  show ?case
  proof (cases "n < MAX_BATCH_SIZE")
    case False
    with Cons.prems show ?thesis by simp
  next
    case True
    show ?thesis
    proof (cases "eligible now (cs user)")
      case False
      with True Cons.prems have "batchExecuteRevealed_loop now rest cs n = (cs', n')"
        by (simp add: batch_loop_Cons del: batchExecuteRevealed_loop.simps)
      from Cons.IH [OF this] show ?thesis by simp
    next
      case el: True
      let ?cs1 = "cs(user := (cs user)\<lparr>executed := True\<rparr>)"
      from el True Cons.prems have
        "batchExecuteRevealed_loop now rest ?cs1 (n + 1) = (cs', n')"
        by (simp add: batch_loop_Cons del: batchExecuteRevealed_loop.simps)
      from Cons.IH [OF this] have fin: "finite {u. cs' u \<noteq> ?cs1 u}"
        and cnt: "card {u. cs' u \<noteq> ?cs1 u} + (n + 1) \<le> n'"
        and bnd: "n + 1 \<le> MAX_BATCH_SIZE \<longrightarrow> n' \<le> MAX_BATCH_SIZE"
        by simp_all
      have sub: "{u. cs' u \<noteq> cs u} \<subseteq> insert user {u. cs' u \<noteq> ?cs1 u}" by auto
      have fin': "finite {u. cs' u \<noteq> cs u}"
        by (rule finite_subset [OF sub]) (simp add: fin)
      have "card {u. cs' u \<noteq> cs u} \<le> card (insert user {u. cs' u \<noteq> ?cs1 u})"
        by (rule card_mono [OF _ sub]) (simp add: fin)
      also have "\<dots> \<le> card {u. cs' u \<noteq> ?cs1 u} + 1"
        using fin by (simp add: card_insert_if)
      finally show ?thesis using fin' cnt bnd True by simp
    qed
  qed
qed


subsection \<open>Calls and invariants\<close>

lemma batchExecuteRevealed_Inr:
  assumes "batchExecuteRevealed m st = Inr st'"
  shows "\<exists>cs n. batchExecuteRevealed_loop (block_timestamp m) (revealedOrders st) (commitments st) 0
             = (cs, n) \<and>
           st' = st\<lparr>commitments := cs,
                    revealedOrders := (if n > 0 then [] else revealedOrders st)\<rparr>"
  using assms
  by (auto simp: batchExecuteRevealed_def clearRevealedOrders_def Let_def
      split: if_splits prod.splits)

text \<open>How a successful call changes the storage.\<close>

lemma dispatch_storage:
  assumes "dispatch env m c (st, w) = Inr (st', w')"
  shows "usedCommitments st' = usedCommitments st \<or>
           (\<exists>h dl. c = CommitOrder h dl \<and> h \<noteq> 0 \<and> \<not> usedCommitments st h \<and>
              usedCommitments st' = (usedCommitments st)(h := True))"
    and "commitments st' a = commitments st a \<or>
         (\<exists>h dl. c = CommitOrder h dl \<and> a = msg_sender m \<and> h \<noteq> 0 \<and> \<not> usedCommitments st h \<and>
            commitments st' a = \<lparr>commitment = h, deadline = dl, revealed = False, executed = False\<rparr>) \<or>
         (\<exists>p nonce salt. c = RevealAndExecute p nonce salt \<and> a = msg_sender m \<and>
            commitments st' a = (commitments st a)\<lparr>revealed := True, executed := True\<rparr>) \<or>
         (c = BatchExecuteRevealed \<and> eligible (block_timestamp m) (commitments st a) \<and>
            commitments st' a = (commitments st a)\<lparr>executed := True\<rparr>)"
proof -
  show "usedCommitments st' = usedCommitments st \<or>
           (\<exists>h dl. c = CommitOrder h dl \<and> h \<noteq> 0 \<and> \<not> usedCommitments st h \<and>
              usedCommitments st' = (usedCommitments st)(h := True))"
  proof (cases c)
    case (ProtectedSwap p)
    with assms show ?thesis by (auto simp: bindE_eq_Inr dest: used_protectedSwap)
  next
    case (CommitOrder h dl)
    with assms show ?thesis by (auto simp: bindE_eq_Inr commitOrder_Inr_iff)
  next
    case (RevealAndExecute p nonce salt)
    with assms show ?thesis by (auto simp: bindE_eq_Inr dest: revealAndExecute_Inr(1))
  next
    case BatchExecuteRevealed
    with assms show ?thesis by (auto simp: bindE_eq_Inr dest: used_batch)
  next
    case (AddPool x y z)
    with assms show ?thesis by (auto simp: bindE_eq_Inr dest: used_addPool)
  qed
  show "commitments st' a = commitments st a \<or>
         (\<exists>h dl. c = CommitOrder h dl \<and> a = msg_sender m \<and> h \<noteq> 0 \<and> \<not> usedCommitments st h \<and>
            commitments st' a = \<lparr>commitment = h, deadline = dl, revealed = False, executed = False\<rparr>) \<or>
         (\<exists>p nonce salt. c = RevealAndExecute p nonce salt \<and> a = msg_sender m \<and>
            commitments st' a = (commitments st a)\<lparr>revealed := True, executed := True\<rparr>) \<or>
         (c = BatchExecuteRevealed \<and> eligible (block_timestamp m) (commitments st a) \<and>
            commitments st' a = (commitments st a)\<lparr>executed := True\<rparr>)"
  proof (cases c)
    case (ProtectedSwap p)
    with assms show ?thesis by (auto simp: bindE_eq_Inr dest: used_protectedSwap)
  next
    case (CommitOrder h dl)
    with assms show ?thesis
      by (cases "a = msg_sender m") (auto simp: bindE_eq_Inr commitOrder_Inr_iff)
  next
    case (RevealAndExecute p nonce salt)
    with assms show ?thesis
      by (cases "a = msg_sender m") (auto simp: bindE_eq_Inr dest!: revealAndExecute_Inr(1))
  next
    case BatchExecuteRevealed
    with assms obtain cs n where
      loop: "batchExecuteRevealed_loop (block_timestamp m) (revealedOrders st) (commitments st) 0 = (cs, n)"
      and st': "commitments st' = cs"
      by (auto simp: bindE_eq_Inr dest!: batchExecuteRevealed_Inr)
    from batch_loop_step [OF loop, of a] BatchExecuteRevealed st' show ?thesis by auto
  next
    case (AddPool x y z)
    with assms show ?thesis by (auto simp: bindE_eq_Inr addPool_def split: if_splits)
  qed
qed

lemma transact_cases:
  "transact env (m, c) (st, w) = (st, w) \<or>
   (\<exists>st' w'. dispatch env m c (st, w) = Inr (st', w') \<and> transact env (m, c) (st, w) = (st', w'))"
  by (cases "dispatch env m c (st, w)") (auto simp: transact_def)




lemma ledger_inv_transact:
  "ledger_inv (fst s) \<Longrightarrow> ledger_inv (fst (transact env mc s))"
proof -
  assume inv: "ledger_inv (fst s)"
  obtain m c st w where mc: "mc = (m, c)" and s: "s = (st, w)" by (cases mc, cases s) auto
  from transact_cases [of env m c st w] show ?thesis
  proof
    assume "transact env (m, c) (st, w) = (st, w)"
    with inv show ?thesis by (simp add: mc s)
  next
    assume "\<exists>st' w'. dispatch env m c (st, w) = Inr (st', w') \<and>
                     transact env (m, c) (st, w) = (st', w')"
    then obtain st' w' where d: "dispatch env m c (st, w) = Inr (st', w')"
      and t: "transact env (m, c) (st, w) = (st', w')" by blast
    have "\<not> usedCommitments st' 0"
      using dispatch_storage(1) [OF d] inv by (auto simp: ledger_inv_def s)
    moreover have "deadline (commitments st' a) = 0" if "commitment (commitments st' a) = 0" for a
      using dispatch_storage(2) [OF d, of a] inv that by (auto simp: ledger_inv_def s)
    ultimately show ?thesis by (simp add: ledger_inv_def mc s t)
  qed
qed

lemma ledger_inv_run:
  "ledger_inv (fst s) \<Longrightarrow> ledger_inv (fst (run env calls s))"
  by (induction calls arbitrary: s) (simp_all add: ledger_inv_transact)

lemma ledger_inv_constructor: "ledger_inv (constructor d r)"
  by (simp add: ledger_inv_def constructor_def emptyOrder_def)

lemma batch_only_unchanged:
  assumes "\<forall>mc\<in>set calls. snd mc = BatchExecuteRevealed \<and>
             deadline (commitments (fst s) u) < block_timestamp (fst mc)"
  shows "commitments (fst (run env calls s)) u = commitments (fst s) u"
  using assms
proof (induction calls arbitrary: s)
  case Nil
  show ?case by simp
next
  case (Cons mc calls)
  obtain m c st w where mc: "mc = (m, c)" and s: "s = (st, w)" by (cases mc, cases s) auto
  have c: "c = BatchExecuteRevealed" and late: "deadline (commitments st u) < block_timestamp m"
    using Cons.prems by (simp_all add: mc s)
  have keep: "commitments (fst (transact env mc s)) u = commitments st u"
  proof -
    from transact_cases [of env m c st w] show ?thesis
    proof
      assume "transact env (m, c) (st, w) = (st, w)"
      then show ?thesis by (simp add: mc s)
    next
      assume "\<exists>st' w'. dispatch env m c (st, w) = Inr (st', w') \<and>
                       transact env (m, c) (st, w) = (st', w')"
      then obtain st' w' where d: "dispatch env m c (st, w) = Inr (st', w')"
        and t: "transact env (m, c) (st, w) = (st', w')" by blast
      from dispatch_storage(2) [OF d, of u] c late
      have "commitments st' u = commitments st u" by (auto simp: eligible_def)
      then show ?thesis unfolding mc s t by simp
    qed
  qed
  have "commitments (fst (run env calls (transact env mc s))) u
      = commitments (fst (transact env mc s)) u"
    by (rule Cons.IH) (use Cons.prems keep in \<open>simp add: s\<close>)
  with keep show ?case by (simp add: s)
qed





subsection \<open>The loop of executeMultiPathSwap\<close>



lemma getOptimalRoute_pools:
  "tokenPairPools st' = tokenPairPools st \<Longrightarrow> getOptimalRoute st' = getOptimalRoute st"
  unfolding getOptimalRoute_def getAvailablePools_def by (intro ext) simp

lemma executeSingleRoute_router:
  "swapRouter st' = swapRouter st \<Longrightarrow> executeSingleRoute env st' = executeSingleRoute env st"
  unfolding executeSingleRoute_def by (intro ext) simp


lemma executeMultiPathSwap_loop_router:
  assumes "swapRouter st' = swapRouter st"
  shows "executeMultiPathSwap_loop env st' p rs out remaining spent w
     = executeMultiPathSwap_loop env st p rs out remaining spent w"
proof (induction rs arbitrary: out remaining spent w)
  case Nil
  show ?case by simp
next
  case (Cons r rs)
  note single = executeSingleRoute_router [OF assms, of env]
  show ?case
    unfolding executeMultiPathSwap_loop.simps single Cons.IH ..
qed

lemma executeMultiPathSwap_router:
  assumes "swapRouter st' = swapRouter st"
  shows "executeMultiPathSwap env st' = executeMultiPathSwap env st"
  unfolding executeMultiPathSwap_def executeMultiPathSwap_loop_router [OF assms] ..

lemma revealAndExecute_succeeds:
  assumes "commitment (commitments st (msg_sender m)) = keccak256 env
            (msg_sender m, SwapParams.tokenIn p, SwapParams.tokenOut p,
             SwapParams.amountIn p, amountOutMin p, SwapParams.recipient p,
             SwapParams.deadline p, nonce, salt)"
    and "\<not> revealed (commitments st (msg_sender m))"
    and "\<not> executed (commitments st (msg_sender m))"
    and "block_timestamp m \<le> deadline (commitments st (msg_sender m))"
    and "pullFunds env m p w = Inr w1"
    and "getOptimalRoute st (SwapParams.tokenIn p) (SwapParams.tokenOut p) (SwapParams.amountIn p)
            = Inr (routes, expectedAmountOut)"
    and "executeMultiPathSwap env st p routes w1 = Inr (out, w2)"
  shows "revealAndExecute env m p nonce salt (st, w)
      = Inr (out,
             st\<lparr>commitments := (commitments st)(msg_sender m :=
                   (commitments st (msg_sender m))\<lparr>revealed := True, executed := True\<rparr>),
                revealedOrders := revealedOrders st @ [msg_sender m]\<rparr>,
             w2)"
proof -
  let ?order = "commitments st (msg_sender m)"
  let ?st1 = "st\<lparr>commitments := (commitments st)(msg_sender m := ?order\<lparr>revealed := True\<rparr>),
                 revealedOrders := revealedOrders st @ [msg_sender m]\<rparr>"
  have pools: "getOptimalRoute ?st1 = getOptimalRoute st"
    by (rule getOptimalRoute_pools) simp
  have router: "executeMultiPathSwap env ?st1 = executeMultiPathSwap env st"
    by (rule executeMultiPathSwap_router) simp
  show ?thesis
    using assms by (simp add: revealAndExecute_def Let_def pools router)
qed

subsection \<open>The errors of a reveal\<close>

lemma bindE_eq_Inl: "bindE x f = Inl e \<longleftrightarrow> x = Inl e \<or> (\<exists>v. x = Inr v \<and> f v = Inl e)"
  by (cases x) simp_all

lemma checked_Panic:
  "checked_add a b = Inl e \<Longrightarrow> e = Panic"
  "checked_sub a b = Inl e \<Longrightarrow> e = Panic"
  "checked_mul a b = Inl e \<Longrightarrow> e = Panic"
  "checked_div a b = Inl e \<Longrightarrow> e = Panic"
  by (auto simp: checked_add_def checked_sub_def checked_mul_def checked_div_def split: if_splits)

lemma calculatePoolCapacity_Panic: "calculatePoolCapacity p a = Inl e \<Longrightarrow> e = Panic"
  by (auto simp: calculatePoolCapacity_def bindE_eq_Inl dest: checked_Panic)

lemma calculateExpectedOutput_Panic:
  "calculateExpectedOutput p tIn tOut a = Inl e \<Longrightarrow> e = Panic"
  by (auto simp: calculateExpectedOutput_def bindE_eq_Inl dest: checked_Panic)

lemma optimizeRoute_loop_Panic:
  "optimizeRoute_loop tIn tOut amount ps routes legs eo rem = Inl e \<Longrightarrow> e = Panic"
proof (induction ps arbitrary: routes legs eo rem)
  case Nil
  then show ?case by simp
next
  case (Cons p ps)
  from Cons.prems show ?case
    by (auto simp: bindE_eq_Inl Let_def split: if_splits
        dest: checked_Panic calculatePoolCapacity_Panic calculateExpectedOutput_Panic Cons.IH)
qed

lemma getOptimalRoute_Panic: "getOptimalRoute st tIn tOut amount = Inl e \<Longrightarrow> e = Panic"
  by (auto simp: getOptimalRoute_def optimizeRoute_def bindE_eq_Inl dest: optimizeRoute_loop_Panic)

lemma pullFunds_errors:
  "pullFunds env m p w = Inl e \<Longrightarrow> e = TransferFailed \<or> e = IncorrectETHAmount"
  by (auto simp: pullFunds_def split: if_splits option.splits)

lemma executeSingleRoute_errors:
  "executeSingleRoute env st r a rc dl w = Inl e \<Longrightarrow> e = TransferFailed \<or> e = VenueExecutionError"
  by (auto simp: executeSingleRoute_def bindE_eq_Inl Let_def split: if_splits option.splits)

lemma executeMultiPathSwap_loop_errors:
  "executeMultiPathSwap_loop env st p rs out remaining spent w = Inl e \<Longrightarrow>
   e = Panic \<or> e = TransferFailed \<or> e = VenueExecutionError"
proof (induction rs arbitrary: out remaining spent w)
  case Nil
  then show ?case by simp
next
  case (Cons r rs)
  from Cons.prems show ?case
    by (auto simp: bindE_eq_Inl Let_def split: if_splits
        dest: checked_Panic executeSingleRoute_errors Cons.IH)
qed

lemma executeMultiPathSwap_errors:
  "executeMultiPathSwap env st p rs w = Inl e \<Longrightarrow>
   e = NoRoutesAvailable \<or> e = Panic \<or> e = TransferFailed \<or> e = VenueExecutionError"
  by (auto simp: executeMultiPathSwap_def bindE_eq_Inl split: if_splits
      dest: executeMultiPathSwap_loop_errors)

lemma revealAndExecute_errors:
  "revealAndExecute env m p nonce salt s = Inl e \<Longrightarrow>
   e \<in> {InvalidReveal, AlreadyRevealed, AlreadyExecuted, CommitmentExpired, TransferFailed,
        IncorrectETHAmount, NoRoutesAvailable, VenueExecutionError, Panic}"
  by (cases s)
    (auto simp: revealAndExecute_def bindE_eq_Inl Let_def split: if_splits
      dest: pullFunds_errors getOptimalRoute_Panic executeMultiPathSwap_errors)

subsection \<open>The example inputs\<close>

lemma commitOrder_committedOnce:
  "commitOrder (exampleMsg 0xA1 1000) 5 1100 exampleStorage = Inr committedOnce"
  by (simp add: commitOrder_Inr_iff committedOnce_def exampleMsg_def exampleStorage_def
      constructor_def COMMIT_REVEAL_DELAY_def MAX_UINT256_def)




lemma example_getOptimalRoute:
  "getOptimalRoute exampleStorage USDC getWETH 1000
     = Inr ([\<lparr>Route.pool = 0x8ad599c3A0ff1De082011EFDDc58f1908eb6e6D8, tokenIn = USDC,
               tokenOut = getWETH, percentage = 10000\<rparr>], 994)"
  by (simp add: getOptimalRoute_def getAvailablePools_def exampleStorage_def constructor_def
      initializePools_def pushPool_def USDC_def getWETH_def Let_def optimizeRoute_def
      isValidPool_def calculatePoolCapacity_def calculateExpectedOutput_def
      checked_mul_def checked_div_def checked_add_def checked_sub_def MAX_UINT256_def
      MAX_ROUTES_def PERCENTAGE_BASE_def)


lemma example_pullFunds:
  "pullFunds exampleCollaborators (exampleMsg 0xA1 t) (exampleParams minOut dl) exampleBalances
     = Inr pulledBalances"
  by (simp add: pullFunds_def exampleCollaborators_def exampleMsg_def exampleParams_def
      ledgerTransfer_def exampleBalances_def pulledBalances_def USDC_def Let_def fun_eq_iff)

lemma example_executeMultiPathSwap:
  "\<exists>w2. executeMultiPathSwap exampleCollaborators st (exampleParams minOut dl)
     [\<lparr>Route.pool = 0x8ad599c3A0ff1De082011EFDDc58f1908eb6e6D8, tokenIn = USDC,
               tokenOut = getWETH, percentage = 10000\<rparr>] pulledBalances = Inr (500, w2)"
proof -
  have usdc: "USDC \<noteq> 0" by (simp add: USDC_def)
  show ?thesis
    by (simp add: executeMultiPathSwap_def executeSingleRoute_def exampleCollaborators_def
        exampleParams_def usdc exampleRouter_def ledgerTransfer_def pulledBalances_def
        exampleBalances_def Let_def checked_mul_def checked_div_def checked_add_def
        checked_sub_def MAX_UINT256_def)
qed

section \<open>C1: the reveal window\<close>

text \<open>
  Claim C1 does not hold of the source. Take a caller whose stored commitment matches the
  revealed data and is neither revealed nor executed. A reveal after the deadline fails
  with "commitment expired" and leaves storage and world unchanged, as claimed. A reveal
  more than \<open>COMMIT_REVEAL_DELAY\<close> before the deadline is rejected by the modifier
  \<open>validReveal\<close> with "reveal too early", but \<open>revealAndExecute\<close> does not carry that
  modifier and has no such check of its own: whenever the pull, the routing and the
  execution go through, the early reveal succeeds and the order ends revealed and
  executed. No call of \<open>revealAndExecute\<close> at all fails with "reveal too early".
\<close>

theorem revealAndExecute_reveal_window:
  assumes "commitment (commitments st (msg_sender m)) = keccak256 env
            (msg_sender m, SwapParams.tokenIn p, SwapParams.tokenOut p,
             SwapParams.amountIn p, amountOutMin p, SwapParams.recipient p,
             SwapParams.deadline p, nonce, salt)"
    and "\<not> revealed (commitments st (msg_sender m))"
    and "\<not> executed (commitments st (msg_sender m))"
  shows "(deadline (commitments st (msg_sender m)) < block_timestamp m \<longrightarrow>
            revealAndExecute env m p nonce salt (st, w) = Inl CommitmentExpired \<and>
            transact env (m, RevealAndExecute p nonce salt) (st, w) = (st, w)) \<and>
         (block_timestamp m + COMMIT_REVEAL_DELAY < deadline (commitments st (msg_sender m)) \<and>
          pullFunds env m p w = Inr w1 \<and>
          getOptimalRoute st (SwapParams.tokenIn p) (SwapParams.tokenOut p) (SwapParams.amountIn p)
            = Inr (routes, expectedAmountOut) \<and>
          executeMultiPathSwap env st p routes w1 = Inr (out, w2) \<longrightarrow>
            validReveal st m (commitment (commitments st (msg_sender m))) = Inl RevealTooEarly \<and>
            revealAndExecute env m p nonce salt (st, w)
              = Inr (out,
                     st\<lparr>commitments := (commitments st)(msg_sender m :=
                           (commitments st (msg_sender m))\<lparr>revealed := True, executed := True\<rparr>),
                        revealedOrders := revealedOrders st @ [msg_sender m]\<rparr>,
                     w2)) \<and>
         revealAndExecute env' m' p' nonce' salt' s' \<noteq> Inl RevealTooEarly"
proof -
  let ?order = "commitments st (msg_sender m)"
  have expired: "revealAndExecute env m p nonce salt (st, w) = Inl CommitmentExpired"
    if "deadline ?order < block_timestamp m"
    using assms that by (simp add: revealAndExecute_def Let_def)
  have undo: "transact env (m, RevealAndExecute p nonce salt) (st, w) = (st, w)"
    if "deadline ?order < block_timestamp m"
    using expired [OF that] by (simp add: transact_def)
  have modifier: "validReveal st m (commitment ?order) = Inl RevealTooEarly"
    if "block_timestamp m + COMMIT_REVEAL_DELAY < deadline ?order"
    using assms that by (simp add: validReveal_def Let_def checked_sub_def)
  have early: "revealAndExecute env m p nonce salt (st, w)
      = Inr (out,
             st\<lparr>commitments := (commitments st)(msg_sender m :=
                   ?order\<lparr>revealed := True, executed := True\<rparr>),
                revealedOrders := revealedOrders st @ [msg_sender m]\<rparr>,
             w2)"
    if "block_timestamp m + COMMIT_REVEAL_DELAY < deadline ?order"
      and "pullFunds env m p w = Inr w1"
      and "getOptimalRoute st (SwapParams.tokenIn p) (SwapParams.tokenOut p) (SwapParams.amountIn p)
            = Inr (routes, expectedAmountOut)"
      and "executeMultiPathSwap env st p routes w1 = Inr (out, w2)"
  proof (rule revealAndExecute_succeeds [OF assms _ that(2,3,4)])
    show "block_timestamp m \<le> deadline ?order" using that(1) by simp
  qed
  have never: "revealAndExecute env' m' p' nonce' salt' s' \<noteq> Inl RevealTooEarly"
    using revealAndExecute_errors [of env' m' p' nonce' salt' s' RevealTooEarly] by auto
  show ?thesis using expired undo modifier early never by blast
qed

text \<open>
  The behaviour for a commitment with deadline 1100: the modifier rejects a reveal at time
  1030, \<open>revealAndExecute\<close> accepts it; a reveal at 1101 fails as expired.
\<close>

theorem revealAndExecute_reveal_window_witness:
  "validReveal committedOnce (exampleMsg 0xA1 1030) 5 = Inl RevealTooEarly \<and>
   \<not> isl (revealAndExecute exampleCollaborators (exampleMsg 0xA1 1030) (exampleParams 0 2000) 3 1
            (committedOnce, exampleBalances)) \<and>
   revealAndExecute exampleCollaborators (exampleMsg 0xA1 1101) (exampleParams 0 2000) 3 1
     (committedOnce, exampleBalances) = Inl CommitmentExpired"
proof -
  have slot: "commitments committedOnce (msg_sender (exampleMsg 0xA1 t))
      = \<lparr>commitment = 5, deadline = 1100, revealed = False, executed = False\<rparr>" for t
    by (simp add: committedOnce_def exampleMsg_def)
  have h: "commitment (commitments committedOnce (msg_sender (exampleMsg 0xA1 t)))
      = keccak256 exampleCollaborators
          (msg_sender (exampleMsg 0xA1 t), SwapParams.tokenIn (exampleParams 0 2000),
           SwapParams.tokenOut (exampleParams 0 2000), SwapParams.amountIn (exampleParams 0 2000),
           amountOutMin (exampleParams 0 2000), SwapParams.recipient (exampleParams 0 2000),
           SwapParams.deadline (exampleParams 0 2000), 3, 1)" for t
    unfolding slot by (simp add: exampleCollaborators_def)
  have r: "\<not> revealed (commitments committedOnce (msg_sender (exampleMsg 0xA1 t)))"
    and e: "\<not> executed (commitments committedOnce (msg_sender (exampleMsg 0xA1 t)))" for t
    unfolding slot by simp_all
  have early: "block_timestamp (exampleMsg 0xA1 1030) + COMMIT_REVEAL_DELAY
      < deadline (commitments committedOnce (msg_sender (exampleMsg 0xA1 1030)))"
    unfolding slot by (simp add: exampleMsg_def COMMIT_REVEAL_DELAY_def)
  have late: "deadline (commitments committedOnce (msg_sender (exampleMsg 0xA1 1101)))
      < block_timestamp (exampleMsg 0xA1 1101)"
    unfolding slot by (simp add: exampleMsg_def)
  have route: "getOptimalRoute committedOnce (SwapParams.tokenIn (exampleParams 0 2000))
        (SwapParams.tokenOut (exampleParams 0 2000)) (SwapParams.amountIn (exampleParams 0 2000))
      = Inr ([\<lparr>Route.pool = 0x8ad599c3A0ff1De082011EFDDc58f1908eb6e6D8, tokenIn = USDC,
               tokenOut = getWETH, percentage = 10000\<rparr>], 994)"
  proof -
    have "getOptimalRoute committedOnce = getOptimalRoute exampleStorage"
      by (rule getOptimalRoute_pools) (simp add: committedOnce_def)
    then show ?thesis using example_getOptimalRoute by (simp add: exampleParams_def)
  qed
  obtain w2 where exec: "executeMultiPathSwap exampleCollaborators committedOnce (exampleParams 0 2000)
     [\<lparr>Route.pool = 0x8ad599c3A0ff1De082011EFDDc58f1908eb6e6D8, tokenIn = USDC,
               tokenOut = getWETH, percentage = 10000\<rparr>] pulledBalances = Inr (500, w2)"
    using example_executeMultiPathSwap by blast
  have c5: "commitment (commitments committedOnce (msg_sender (exampleMsg 0xA1 1030))) = 5"
    unfolding slot by simp
  note t1 = revealAndExecute_reveal_window [OF h [of 1030] r [of 1030] e [of 1030],
      where w = exampleBalances and env' = exampleCollaborators and m' = "exampleMsg 0xA1 1030"
        and p' = "exampleParams 0 2000" and nonce' = 3 and salt' = 1
        and s' = "(committedOnce, exampleBalances)"
        and ?w1.0 = pulledBalances and expectedAmountOut = 994
        and out = 500 and ?w2.0 = w2
        and routes = "[\<lparr>Route.pool = 0x8ad599c3A0ff1De082011EFDDc58f1908eb6e6D8, tokenIn = USDC,
               tokenOut = getWETH, percentage = 10000\<rparr>]"]
  note t2 = revealAndExecute_reveal_window [OF h [of 1101] r [of 1101] e [of 1101],
      where w = exampleBalances and env' = exampleCollaborators and m' = "exampleMsg 0xA1 1030"
        and p' = "exampleParams 0 2000" and nonce' = 3 and salt' = 1
        and s' = "(committedOnce, exampleBalances)"]
  from t1 early example_pullFunds route exec
  have "validReveal committedOnce (exampleMsg 0xA1 1030) 5 = Inl RevealTooEarly"
    and "\<not> isl (revealAndExecute exampleCollaborators (exampleMsg 0xA1 1030) (exampleParams 0 2000) 3 1
            (committedOnce, exampleBalances))"
    unfolding c5 by simp_all
  moreover from t2 late
  have "revealAndExecute exampleCollaborators (exampleMsg 0xA1 1101) (exampleParams 0 2000) 3 1
     (committedOnce, exampleBalances) = Inl CommitmentExpired"
    by blast
  ultimately show ?thesis by blast
qed

section \<open>C2: what a batch leaves of a backlog\<close>



section \<open>C3: one commitment slot per committer\<close>

text \<open>
  Claim C3, as amended. Every committer has one commitment slot, hence at most one stored
  commitment at a time. \<open>commitOrder\<close> does not look at the slot of the caller: it succeeds
  exactly when the hash is nonzero and was never used and the deadline lies in
  \<open>(now + 60, now + 3600]\<close>, and it then replaces whatever the slot held, a live
  commitment too, by the new commitment in state Committed. The slots of the other
  committers are unchanged, and every hash used before stays used.
\<close>

theorem commitOrder_replaces_slot:
  "(commitOrder m c dl st = Inr st' \<longleftrightarrow>
      c \<noteq> 0 \<and> \<not> usedCommitments st c \<and>
      block_timestamp m + 3600 \<le> MAX_UINT256 \<and>
      block_timestamp m + COMMIT_REVEAL_DELAY < dl \<and> dl \<le> block_timestamp m + 3600 \<and>
      st' = st\<lparr>commitments := (commitments st)(msg_sender m :=
                   \<lparr>commitment = c, deadline = dl, revealed = False, executed = False\<rparr>),
                usedCommitments := (usedCommitments st)(c := True)\<rparr>) \<and>
   (commitOrder m c dl st = Inr st' \<longrightarrow>
      commitments st' (msg_sender m)
        = \<lparr>commitment = c, deadline = dl, revealed = False, executed = False\<rparr> \<and>
      (\<forall>a. a \<noteq> msg_sender m \<longrightarrow> commitments st' a = commitments st a) \<and>
      usedCommitments st' c \<and>
      (\<forall>h. usedCommitments st h \<longrightarrow> usedCommitments st' h))"
  by (auto simp: commitOrder_Inr_iff)

text \<open>The amended statement for a second commit of \<open>0xA1\<close>, one second after the first.\<close>

theorem commitOrder_replaces_slot_witness:
  "commitOrder (exampleMsg 0xA1 1001) 6 1100 committedOnce
     = Inr (committedOnce\<lparr>commitments := (commitments committedOnce)(0xA1 :=
                   \<lparr>commitment = 6, deadline = 1100, revealed = False, executed = False\<rparr>),
                usedCommitments := (usedCommitments committedOnce)(6 := True)\<rparr>)"
  using commitOrder_replaces_slot [where m = "exampleMsg 0xA1 1001" and c = 6 and dl = 1100
      and st = committedOnce
      and st' = "committedOnce\<lparr>commitments := (commitments committedOnce)(0xA1 :=
                   \<lparr>commitment = 6, deadline = 1100, revealed = False, executed = False\<rparr>),
                usedCommitments := (usedCommitments committedOnce)(6 := True)\<rparr>"]
  by (simp add: committedOnce_def exampleMsg_def exampleStorage_def constructor_def
      COMMIT_REVEAL_DELAY_def MAX_UINT256_def)

text \<open>
  Claim C3 as stated fails: \<open>0xA1\<close> holds the live commitment 5 (Committed, deadline 1100),
  and at time 1001 its commit of the hash 6 is not rejected and overwrites the slot.
\<close>

theorem commitOrder_live_commitment_counterexample:
  "commitOrder (exampleMsg 0xA1 1000) 5 1100 exampleStorage = Inr committedOnce \<and>
   commitments committedOnce 0xA1
     = \<lparr>commitment = 5, deadline = 1100, revealed = False, executed = False\<rparr> \<and>
   (1001::nat) \<le> 1100 \<and>
   \<not> isl (commitOrder (exampleMsg 0xA1 1001) 6 1100 committedOnce) \<and>
   commitments (projr (commitOrder (exampleMsg 0xA1 1001) 6 1100 committedOnce)) 0xA1
     = \<lparr>commitment = 6, deadline = 1100, revealed = False, executed = False\<rparr>"
proof -
  have "commitOrder (exampleMsg 0xA1 1001) 6 1100 committedOnce
     = Inr (committedOnce\<lparr>commitments := (commitments committedOnce)(0xA1 :=
                   \<lparr>commitment = 6, deadline = 1100, revealed = False, executed = False\<rparr>),
                usedCommitments := (usedCommitments committedOnce)(6 := True)\<rparr>)"
    by (simp add: commitOrder_Inr_iff committedOnce_def exampleMsg_def exampleStorage_def
        constructor_def COMMIT_REVEAL_DELAY_def MAX_UINT256_def)
  then show ?thesis
    by (simp add: commitOrder_committedOnce) (simp add: committedOnce_def)
qed

section \<open>C4: the allocation that optimizeRoute returns\<close>

text \<open>
  Claim C4, as amended. For a request with \<open>amountIn > 0\<close> whose arithmetic does not overflow
  (\<open>amountIn * 1000000\<close> and every \<open>liquidity * 3000\<close> fit a \<open>uint256\<close>, every fee is at most
  \<open>1000000\<close>), \<open>optimizeRoute\<close> returns, and the allocation has at most \<open>MAX_ROUTES\<close> legs
  and at least one when a matching candidate with positive capacity exists. Its leg
  amounts sum to the minimum of \<open>amountIn\<close> and the capacity of the first \<open>MAX_ROUTES\<close>
  matching candidates with positive capacity, which is the total available capacity when
  there are at most \<open>MAX_ROUTES\<close> of them. Every leg has percentage
  \<open>floor (legAmount * 10000 / amountIn)\<close>, and the percentages sum to
  \<open>floor (filled * 10000 / amountIn)\<close> within \<open>entries - 1\<close> basis points from below: to
  \<open>10000\<close> within that tolerance exactly when the request is filled in full.
\<close>

theorem optimizeRoute_allocation:
  assumes "0 < amount" and "amount * 1000000 \<le> MAX_UINT256"
    and "\<forall>p\<in>set ps. liquidity p * 3000 \<le> MAX_UINT256 \<and> fee p \<le> 1000000"
  shows "\<exists>routes out legs.
     optimizeRoute tIn tOut amount ps = Inr (routes, out) \<and>
     optimizeRoute_legs tIn tOut amount ps = Inr legs \<and>
     length routes = length legs \<and> length routes \<le> MAX_ROUTES \<and>
     ((\<exists>p\<in>set ps. usable tIn tOut p) \<longrightarrow> routes \<noteq> []) \<and>
     sum_list legs = min amount (routable_capacity MAX_ROUTES tIn tOut ps) \<and>
     (length (filter (usable tIn tOut) ps) \<le> MAX_ROUTES \<longrightarrow>
        sum_list legs = min amount (total_capacity tIn tOut ps)) \<and>
     map percentage routes = map (\<lambda>a. a * 10000 div amount) legs \<and>
     sum_list (map percentage routes) \<le> sum_list legs * 10000 div amount \<and>
     sum_list legs * 10000 div amount \<le> sum_list (map percentage routes) + (length routes - 1) \<and>
     (sum_list legs = amount \<longrightarrow>
        sum_list (map percentage routes) \<le> 10000 \<and>
        10000 \<le> sum_list (map percentage routes) + (length routes - 1))"
proof -
  obtain routes legs out rem where
    res: "optimizeRoute_loop tIn tOut amount ps [] [] 0 amount = Inr ([] @ routes, [] @ legs, out, rem)"
    and len: "length routes = length legs"
    and bound: "length routes \<le> MAX_ROUTES - length ([]::Route list)"
    and total: "sum_list legs
        = min amount (routable_capacity (MAX_ROUTES - length ([]::Route list)) tIn tOut ps)"
    and pct: "map percentage routes = map (\<lambda>a. a * 10000 div amount) legs"
    using optimizeRoute_loop_spec [OF assms, of 0 amount tIn tOut "[]" "[]"] by auto
  have r1: "optimizeRoute tIn tOut amount ps = Inr (routes, out)"
    using res by (simp add: optimizeRoute_def)
  have r2: "optimizeRoute_legs tIn tOut amount ps = Inr legs"
    using res by (simp add: optimizeRoute_legs_def)
  have total': "sum_list legs = min amount (routable_capacity MAX_ROUTES tIn tOut ps)"
    using total by simp
  have nonempty: "routes \<noteq> []" if "\<exists>p\<in>set ps. usable tIn tOut p"
  proof -
    have "0 < routable_capacity MAX_ROUTES tIn tOut ps"
      using routable_capacity_pos [OF that, of 2] by (simp add: MAX_ROUTES_def eval_nat_numeral)
    then have "0 < sum_list legs" using total' assms(1) by simp
    then have "legs \<noteq> []" by auto
    then show ?thesis using len by auto
  qed
  have up: "sum_list (map percentage routes) \<le> sum_list legs * 10000 div amount"
    unfolding pct by (rule floor_sum_upper)
  have low: "sum_list legs * 10000 div amount \<le> sum_list (map percentage routes) + (length routes - 1)"
  proof (cases "legs = []")
    case True
    then show ?thesis by simp
  next
    case False
    have "sum_list legs * 10000 div amount + 1
        \<le> sum_list (map (\<lambda>a. a * 10000 div amount) legs) + length legs"
      using assms(1) False by (rule floor_sum_lower)
    then show ?thesis unfolding pct len by simp
  qed
  have full: "sum_list (map percentage routes) \<le> 10000 \<and>
      10000 \<le> sum_list (map percentage routes) + (length routes - 1)"
    if "sum_list legs = amount"
    using up low assms(1) unfolding that by simp
  have fits: "sum_list legs = min amount (total_capacity tIn tOut ps)"
    if "length (filter (usable tIn tOut) ps) \<le> MAX_ROUTES"
    using total' routable_capacity_all [OF that] by simp
  show ?thesis
    using r1 r2 len bound total' pct up low nonempty full fits by auto
qed


text \<open>
  The amended statement on the example of the specification: 100 units over venues of
  capacity 60 and 80.
\<close>

theorem optimizeRoute_allocation_witness:
  "\<exists>routes out legs.
     optimizeRoute 1 2 100 [examplePool 200 3000, examplePool 267 3000] = Inr (routes, out) \<and>
     optimizeRoute_legs 1 2 100 [examplePool 200 3000, examplePool 267 3000] = Inr legs \<and>
     routes \<noteq> [] \<and> length routes \<le> MAX_ROUTES \<and>
     sum_list legs = 100 \<and>
     sum_list (map percentage routes) \<le> 10000 \<and>
     10000 \<le> sum_list (map percentage routes) + (length routes - 1)"
proof -
  have a: "0 < (100::nat)" and b: "(100::nat) * 1000000 \<le> MAX_UINT256"
    by (simp_all add: MAX_UINT256_def)
  have c: "\<forall>p\<in>set [examplePool 200 3000, examplePool 267 3000].
      liquidity p * 3000 \<le> MAX_UINT256 \<and> fee p \<le> 1000000"
    by (simp add: examplePool_def MAX_UINT256_def)
  have d: "routable_capacity MAX_ROUTES 1 2 [examplePool 200 3000, examplePool 267 3000] = 140"
    by (simp add: routable_capacity_def usable_def isValidPool_def capacity_def examplePool_def
        MAX_ROUTES_def)
  have e: "usable 1 2 (examplePool 200 3000)"
    by (simp add: usable_def isValidPool_def capacity_def examplePool_def)
  show ?thesis
    using optimizeRoute_allocation [OF a b c, of 1 2] e unfolding d by fastforce
qed

text \<open>
  Claim C4 as stated fails: with four matching venues of capacity 10 and a request of 100,
  the three legs sum to 30, not to the 40 available, and the percentages sum to 3000.
\<close>

theorem optimizeRoute_allocation_counterexample:
  "0 < (100::nat) \<and> usable 1 2 (examplePool 34 3000) \<and>
   optimizeRoute 1 2 100 (replicate 4 (examplePool 34 3000))
     = Inr (replicate 3 \<lparr>Route.pool = 0x50, tokenIn = 1, tokenOut = 2, percentage = 1000\<rparr>, 27) \<and>
   optimizeRoute_legs 1 2 100 (replicate 4 (examplePool 34 3000)) = Inr [10, 10, 10] \<and>
   total_capacity 1 2 (replicate 4 (examplePool 34 3000)) = 40 \<and>
   \<not> allocation_as_specified 1 2 100 (replicate 4 (examplePool 34 3000))
       (replicate 3 \<lparr>Route.pool = 0x50, tokenIn = 1, tokenOut = 2, percentage = 1000\<rparr>)
       [10, 10, 10]"
proof -
  have r: "replicate 4 (examplePool 34 3000)
      = [examplePool 34 3000, examplePool 34 3000, examplePool 34 3000, examplePool 34 3000]"
    by (simp add: eval_nat_numeral)
  have r3: "replicate 3 \<lparr>Route.pool = 0x50, tokenIn = 1, tokenOut = 2, percentage = 1000\<rparr>
      = [\<lparr>Route.pool = 0x50, tokenIn = 1, tokenOut = 2, percentage = 1000\<rparr>,
         \<lparr>Route.pool = 0x50, tokenIn = 1, tokenOut = 2, percentage = 1000\<rparr>,
         \<lparr>Route.pool = 0x50, tokenIn = 1, tokenOut = 2, percentage = 1000\<rparr>]"
    by (simp add: eval_nat_numeral)
  have u: "usable 1 2 (examplePool 34 3000)"
    by (simp add: usable_def isValidPool_def capacity_def examplePool_def)
  have cap: "calculatePoolCapacity (examplePool 34 3000) 100 = Inr 10"
    by (simp add: calculatePoolCapacity_def checked_mul_def checked_div_def examplePool_def
        MAX_UINT256_def)
  have out: "calculateExpectedOutput (examplePool 34 3000) 1 2 10 = Inr 9"
    by (simp add: calculateExpectedOutput_def checked_mul_def checked_div_def checked_sub_def
        examplePool_def MAX_UINT256_def)
  have v: "isValidPool (examplePool 34 3000) 1 2"
    by (simp add: isValidPool_def examplePool_def)
  have p: "PoolInfo.pool (examplePool 34 3000) = 0x50" by (simp add: examplePool_def)
  have loop: "optimizeRoute_loop 1 2 100 (replicate 4 (examplePool 34 3000)) [] [] 0 100
      = Inr (replicate 3 \<lparr>Route.pool = 0x50, tokenIn = 1, tokenOut = 2, percentage = 1000\<rparr>,
             [10, 10, 10], 27, 70)"
    unfolding r r3
    by (simp add: cap out v p MAX_ROUTES_def PERCENTAGE_BASE_def checked_mul_def checked_div_def
        checked_add_def checked_sub_def MAX_UINT256_def)
  have t: "total_capacity 1 2 (replicate 4 (examplePool 34 3000)) = 40"
    unfolding r by (simp add: total_capacity_def u) (simp add: capacity_def examplePool_def)
  show ?thesis
    using u loop t
    by (simp add: optimizeRoute_def optimizeRoute_legs_def allocation_as_specified_def)
qed

section \<open>C5: a hash is committed once and revealed once\<close>




section \<open>C6: protectedSwap aborts when the minimum output cannot be met\<close>

text \<open>
  Claim C6. Take a request that passes validation, whose funds can be pulled and whose
  route is computed. When \<open>amountOutMin\<close> is above the expected output, \<open>protectedSwap\<close>
  aborts at the check before execution ("insufficient output"); when it is not, but is
  above the output that execution realizes, \<open>protectedSwap\<close> aborts at the check after
  execution ("slippage exceeded"). Both are the slippage failure of the specification. In
  either case the transaction leaves storage and world, hence every token balance, as
  they were before the call: the pull is undone. In no case does \<open>protectedSwap\<close> return
  an output below \<open>amountOutMin\<close>.
\<close>

theorem protectedSwap_slippage_aborts:
  assumes "block_timestamp m \<le> SwapParams.deadline p" and "0 < SwapParams.amountIn p"
    and "pullFunds env m p w = Inr w1"
    and "getOptimalRoute st (SwapParams.tokenIn p) (SwapParams.tokenOut p) (SwapParams.amountIn p)
           = Inr (routes, expectedAmountOut)"
  shows "(expectedAmountOut < amountOutMin p \<longrightarrow>
            protectedSwap env m p (st, w) = Inl InsufficientOutput \<and>
            transact env (m, ProtectedSwap p) (st, w) = (st, w)) \<and>
         (amountOutMin p \<le> expectedAmountOut \<and>
          executeMultiPathSwap env st p routes w1 = Inr (out, w2) \<and> out < amountOutMin p \<longrightarrow>
            protectedSwap env m p (st, w) = Inl SlippageExceeded \<and>
            transact env (m, ProtectedSwap p) (st, w) = (st, w)) \<and>
         (protectedSwap env m p (st, w) = Inr (out', s') \<longrightarrow> amountOutMin p \<le> out')"
proof -
  have pre: "protectedSwap env m p (st, w) = Inl InsufficientOutput"
    if "expectedAmountOut < amountOutMin p"
    using assms that by (simp add: protectedSwap_def)
  have post: "protectedSwap env m p (st, w) = Inl SlippageExceeded"
    if "amountOutMin p \<le> expectedAmountOut"
      and "executeMultiPathSwap env st p routes w1 = Inr (out, w2)" and "out < amountOutMin p"
    using assms that by (simp add: protectedSwap_def)
  have undo: "transact env (m, ProtectedSwap p) (st, w) = (st, w)"
    if "protectedSwap env m p (st, w) = Inl e" for e
    using that by (simp add: transact_def)
  have ok: "amountOutMin p \<le> out'" if "protectedSwap env m p (st, w) = Inr (out', s')"
    using that by (auto simp: protectedSwap_def bindE_eq_Inr split: if_splits)
  show ?thesis using pre post undo ok by blast
qed

text \<open>
  The statement for a swap of 1000 units with expected output 994, where the router pays
  500: a minimum of 900 fails after execution, a minimum of 995 before it, and the
  balances are those before the call.
\<close>

theorem protectedSwap_slippage_aborts_witness:
  "protectedSwap exampleCollaborators (exampleMsg 0xA1 1000) (exampleParams 900 2000)
     (exampleStorage, exampleBalances) = Inl SlippageExceeded \<and>
   transact exampleCollaborators (exampleMsg 0xA1 1000, ProtectedSwap (exampleParams 900 2000))
     (exampleStorage, exampleBalances) = (exampleStorage, exampleBalances) \<and>
   protectedSwap exampleCollaborators (exampleMsg 0xA1 1000) (exampleParams 995 2000)
     (exampleStorage, exampleBalances) = Inl InsufficientOutput"
proof -
  have a: "block_timestamp (exampleMsg 0xA1 1000) \<le> SwapParams.deadline (exampleParams minOut 2000)"
    for minOut by (simp add: exampleMsg_def exampleParams_def)
  have b: "0 < SwapParams.amountIn (exampleParams minOut 2000)" for minOut
    by (simp add: exampleParams_def)
  have c: "getOptimalRoute exampleStorage (SwapParams.tokenIn (exampleParams minOut 2000))
        (SwapParams.tokenOut (exampleParams minOut 2000)) (SwapParams.amountIn (exampleParams minOut 2000))
      = Inr ([\<lparr>Route.pool = 0x8ad599c3A0ff1De082011EFDDc58f1908eb6e6D8, tokenIn = USDC,
               tokenOut = getWETH, percentage = 10000\<rparr>], 994)" for minOut
    using example_getOptimalRoute by (simp add: exampleParams_def)
  obtain w2 where d: "executeMultiPathSwap exampleCollaborators exampleStorage (exampleParams 900 2000)
     [\<lparr>Route.pool = 0x8ad599c3A0ff1De082011EFDDc58f1908eb6e6D8, tokenIn = USDC,
               tokenOut = getWETH, percentage = 10000\<rparr>] pulledBalances = Inr (500, w2)"
    using example_executeMultiPathSwap by blast
  have e: "amountOutMin (exampleParams 900 2000) \<le> 994" "500 < amountOutMin (exampleParams 900 2000)"
    "994 < amountOutMin (exampleParams 995 2000)"
    by (simp_all add: exampleParams_def)
  note t1 = protectedSwap_slippage_aborts [OF a b example_pullFunds c, where out = 500 and ?w2.0 = w2]
  from t1 [of 900] d e(1,2) t1 [of 995] e(3) show ?thesis by blast
qed

section \<open>C7: a batch marks at most MAX_BATCH_SIZE orders and no expired one\<close>

text \<open>
  Claim C7. A call of \<open>batchExecuteRevealed\<close> returns whenever the queue is not empty. The
  orders whose flag \<open>executed\<close> it sets are at most \<open>MAX_BATCH_SIZE\<close>, and an order whose
  deadline has passed (\<open>deadline < now\<close>) is left as it was. Such an order stays as it was
  through every later sequence of batch calls, whose times are all past its deadline.
\<close>

theorem batchExecuteRevealed_bounded:
  "(revealedOrders st \<noteq> [] \<longrightarrow> (\<exists>st'. batchExecuteRevealed m st = Inr st')) \<and>
   (batchExecuteRevealed m st = Inr st' \<longrightarrow>
      finite {u. \<not> executed (commitments st u) \<and> executed (commitments st' u)} \<and>
      card {u. \<not> executed (commitments st u) \<and> executed (commitments st' u)} \<le> MAX_BATCH_SIZE \<and>
      (\<forall>u. deadline (commitments st u) < block_timestamp m \<longrightarrow>
           commitments st' u = commitments st u)) \<and>
   ((\<forall>mc\<in>set calls. snd mc = BatchExecuteRevealed \<and>
        deadline (commitments st v) < block_timestamp (fst mc)) \<longrightarrow>
      commitments (fst (run env calls (st, w))) v = commitments st v)"
proof -
  have a: "\<exists>st'. batchExecuteRevealed m st = Inr st'" if "revealedOrders st \<noteq> []"
    using that by (simp add: batchExecuteRevealed_def Let_def split: prod.splits)
  have b: "finite {u. \<not> executed (commitments st u) \<and> executed (commitments st' u)} \<and>
      card {u. \<not> executed (commitments st u) \<and> executed (commitments st' u)} \<le> MAX_BATCH_SIZE \<and>
      (\<forall>u. deadline (commitments st u) < block_timestamp m \<longrightarrow>
           commitments st' u = commitments st u)"
    if r: "batchExecuteRevealed m st = Inr st'"
  proof -
    from batchExecuteRevealed_Inr [OF r] obtain cs n where
      loop: "batchExecuteRevealed_loop (block_timestamp m) (revealedOrders st) (commitments st) 0 = (cs, n)"
      and st': "commitments st' = cs" by auto
    from batch_loop_count [OF loop] have fin: "finite {u. cs u \<noteq> commitments st u}"
      and cnt: "card {u. cs u \<noteq> commitments st u} \<le> n" and n: "n \<le> MAX_BATCH_SIZE"
      by simp_all
    have sub: "{u. \<not> executed (commitments st u) \<and> executed (cs u)} \<subseteq> {u. cs u \<noteq> commitments st u}"
      by auto
    have "card {u. \<not> executed (commitments st u) \<and> executed (cs u)} \<le> card {u. cs u \<noteq> commitments st u}"
      by (rule card_mono [OF fin sub])
    then have c: "card {u. \<not> executed (commitments st u) \<and> executed (cs u)} \<le> MAX_BATCH_SIZE"
      using cnt n by simp
    have e: "cs u = commitments st u" if "deadline (commitments st u) < block_timestamp m" for u
      using batch_loop_step [OF loop, of u] that by (auto simp: eligible_def)
    show ?thesis using finite_subset [OF sub fin] c e by (simp add: st')
  qed
  show ?thesis
    using a b batch_only_unchanged [of calls "(st, w)" v env] by auto
qed


text \<open>
  The statement at time 1000 on a queue of two orders: the one with deadline 1100 is
  marked, the one with deadline 900 is not, and it is still as it was after batch calls at
  times 1000 and 1001.
\<close>

theorem batchExecuteRevealed_bounded_witness:
  "batchExecuteRevealed (exampleMsg 0xB0 1000) expiredStorage
     = Inr (expiredStorage\<lparr>commitments := (commitments expiredStorage)
              (0xA1 := (revealedOrder 1100)\<lparr>executed := True\<rparr>), revealedOrders := []\<rparr>) \<and>
   card {u. \<not> executed (commitments expiredStorage u) \<and>
            executed (commitments (expiredStorage\<lparr>commitments := (commitments expiredStorage)
              (0xA1 := (revealedOrder 1100)\<lparr>executed := True\<rparr>), revealedOrders := []\<rparr>) u)}
     \<le> MAX_BATCH_SIZE \<and>
   commitments (expiredStorage\<lparr>commitments := (commitments expiredStorage)
              (0xA1 := (revealedOrder 1100)\<lparr>executed := True\<rparr>), revealedOrders := []\<rparr>) 0xA2
     = revealedOrder 900 \<and>
   commitments (fst (run exampleCollaborators
       [(exampleMsg 0xB0 1000, BatchExecuteRevealed), (exampleMsg 0xB0 1001, BatchExecuteRevealed)]
       (expiredStorage, exampleBalances))) 0xA2
     = revealedOrder 900"
proof -
  let ?st' = "expiredStorage\<lparr>commitments := (commitments expiredStorage)
              (0xA1 := (revealedOrder 1100)\<lparr>executed := True\<rparr>), revealedOrders := []\<rparr>"
  have r: "batchExecuteRevealed (exampleMsg 0xB0 1000) expiredStorage = Inr ?st'"
    by (simp add: batchExecuteRevealed_def expiredStorage_def revealedOrder_def exampleMsg_def
        MAX_BATCH_SIZE_def clearRevealedOrders_def Let_def fun_eq_iff)
  have d: "deadline (commitments expiredStorage 0xA2) < block_timestamp (exampleMsg 0xB0 1000)"
    by (simp add: expiredStorage_def revealedOrder_def exampleMsg_def)
  have o: "commitments expiredStorage 0xA2 = revealedOrder 900"
    by (simp add: expiredStorage_def)
  note t = batchExecuteRevealed_bounded [where m = "exampleMsg 0xB0 1000" and st = expiredStorage
      and st' = ?st' and v = "0xA2" and env = exampleCollaborators and w = exampleBalances
      and calls = "[(exampleMsg 0xB0 1000, BatchExecuteRevealed),
                    (exampleMsg 0xB0 1001, BatchExecuteRevealed)]"]
  note t2 = t [THEN conjunct2, THEN conjunct1, THEN mp, OF r]
  have c: "card {u. \<not> executed (commitments expiredStorage u) \<and> executed (commitments ?st' u)}
      \<le> MAX_BATCH_SIZE"
    by (rule t2 [THEN conjunct2, THEN conjunct1])
  have k: "commitments ?st' 0xA2 = commitments expiredStorage 0xA2"
    by (rule t2 [THEN conjunct2, THEN conjunct2, THEN spec, THEN mp, OF d])
  have l: "\<forall>mc\<in>set [(exampleMsg 0xB0 1000, BatchExecuteRevealed),
                     (exampleMsg 0xB0 1001, BatchExecuteRevealed)].
      snd mc = BatchExecuteRevealed \<and>
      deadline (commitments expiredStorage 0xA2) < block_timestamp (fst mc)"
    by (simp add: expiredStorage_def revealedOrder_def exampleMsg_def)
  note k2 = t [THEN conjunct2, THEN conjunct2, THEN mp, OF l]
  show ?thesis
    by (intro conjI, rule r, rule c, rule trans [OF k o], rule trans [OF k2 o])
qed

section \<open>C8: venue capacity and expected output of a leg\<close>




section \<open>C9: the executor never spends more than the amount pulled\<close>



section \<open>C10: the zero hash\<close>

text \<open>
  Claim C10. For every deadline, \<open>commitOrder\<close> with the all-zero hash fails with
  "invalid commitment", and the call stores nothing. A commit that succeeds stores a
  nonzero hash. In every state reached from the constructor by any sequence of calls the
  zero hash is not marked used, and a slot that holds the zero hash is an empty slot: its
  deadline is zero.
\<close>

theorem commitOrder_zero_hash_rejected:
  "commitOrder m 0 dl st = Inl InvalidCommitment \<and>
   transact env (m, CommitOrder 0 dl) (st, w) = (st, w) \<and>
   (commitOrder m c dl st = Inr st' \<longrightarrow> commitment (commitments st' (msg_sender m)) \<noteq> 0) \<and>
   \<not> usedCommitments (fst (run env calls (constructor d r, w))) 0 \<and>
   (commitment (commitments (fst (run env calls (constructor d r, w))) a) = 0 \<longrightarrow>
      deadline (commitments (fst (run env calls (constructor d r, w))) a) = 0)"
proof -
  have "ledger_inv (fst (run env calls (constructor d r, w)))"
    by (rule ledger_inv_run) (simp add: ledger_inv_constructor)
  then show ?thesis
    by (auto simp: commitOrder_zero transact_def ledger_inv_def commitOrder_Inr_iff)
qed

text \<open>
  The statement on the freshly deployed contract: a commit of the zero hash is rejected
  and leaves the slot empty, a commit of the hash 5 stores a nonzero hash.
\<close>

theorem commitOrder_zero_hash_rejected_witness:
  "commitOrder (exampleMsg 0xA1 1000) 0 1100 exampleStorage = Inl InvalidCommitment \<and>
   commitment (commitments (fst (run exampleCollaborators
       [(exampleMsg 0xA1 1000, CommitOrder 0 1100)] (exampleStorage, exampleBalances))) 0xA1) = 0 \<and>
   deadline (commitments (fst (run exampleCollaborators
       [(exampleMsg 0xA1 1000, CommitOrder 0 1100)] (exampleStorage, exampleBalances))) 0xA1) = 0 \<and>
   commitOrder (exampleMsg 0xA1 1000) 5 1100 exampleStorage = Inr committedOnce \<and>
   commitment (commitments committedOnce (msg_sender (exampleMsg 0xA1 1000))) \<noteq> 0"
proof -
  have e: "commitment (commitments (fst (run exampleCollaborators
       [(exampleMsg 0xA1 1000, CommitOrder 0 1100)] (exampleStorage, exampleBalances))) 0xA1) = 0"
    by (simp add: transact_def commitOrder_zero exampleStorage_def constructor_def emptyOrder_def)
  note t = commitOrder_zero_hash_rejected [where m = "exampleMsg 0xA1 1000" and dl = 1100
        and st = exampleStorage and env = exampleCollaborators and w = exampleBalances
        and calls = "[(exampleMsg 0xA1 1000, CommitOrder 0 1100)]" and a = "0xA1"
        and d = "0xD0" and r = "0xE0" and c = 5 and st' = committedOnce,
        folded exampleStorage_def]
  from t e commitOrder_committedOnce show ?thesis by blast
qed

end
